theory Spec2Isabelle
  imports Main "HOL-Library.Char_ord" "HOL-Library.List_Lexorder"
begin

section \<open>Strings (package strings)\<close>

text \<open>
  A Go string is a sequence of bytes; \<^typ>\<open>string\<close> is a list of 8-bit characters.
  The functions below are the ones of package \<open>strings\<close> that the program calls.
\<close>

definition HasPrefix :: "string \<Rightarrow> string \<Rightarrow> bool" where
  "HasPrefix s p = (take (length p) s = p)"

definition HasSuffix :: "string \<Rightarrow> string \<Rightarrow> bool" where
  "HasSuffix s p = (length p \<le> length s \<and> drop (length s - length p) s = p)"

definition TrimPrefix :: "string \<Rightarrow> string \<Rightarrow> string" where
  "TrimPrefix s p = (if HasPrefix s p then drop (length p) s else s)"

definition TrimSuffix :: "string \<Rightarrow> string \<Rightarrow> string" where
  "TrimSuffix s p = (if HasSuffix s p then take (length s - length p) s else s)"

definition Contains :: "string \<Rightarrow> string \<Rightarrow> bool" where
  "Contains s sub = list_ex (\<lambda>i. HasPrefix (drop i s) sub) [0 ..< Suc (length s)]"

text \<open>\<open>strings.Cut(s, " ")\<close>: the text before and after the first blank, and whether there is one.\<close>

fun Cut_blank :: "string \<Rightarrow> string \<times> string \<times> bool" where
  "Cut_blank [] = ([], [], False)"
| "Cut_blank (c # cs) =
     (if c = CHR '' '' then ([], cs, True)
      else (case Cut_blank cs of (b, a, ok) \<Rightarrow> (c # b, a, ok)))"

text \<open>\<open>strings.SplitSeq(s, "\n")\<close>: the lines of \<open>s\<close>, at least one.\<close>

fun Split_lines :: "string \<Rightarrow> string list" where
  "Split_lines [] = [[]]"
| "Split_lines (c # cs) =
     (if c = CHR 0x0A then [] # Split_lines cs
      else (case Split_lines cs of l # ls \<Rightarrow> (c # l) # ls | [] \<Rightarrow> [[c]]))"

text \<open>
  \<open>strings.TrimSpace\<close> removes the leading and trailing runes that \<open>unicode.IsSpace\<close>
  accepts. In UTF-8 these are the six ASCII bytes tab, line feed, vertical tab, form
  feed, carriage return and blank, and the encodings of U+0085, U+00A0, U+1680,
  U+2000 to U+200A, U+2028, U+2029, U+202F, U+205F and U+3000.
\<close>

definition spaceRunes :: "string list" where
  "spaceRunes =
     [[CHR 0x09], [CHR 0x0A], [CHR 0x0B], [CHR 0x0C], [CHR 0x0D], [CHR 0x20],
      [CHR 0xC2, CHR 0x85], [CHR 0xC2, CHR 0xA0], [CHR 0xE1, CHR 0x9A, CHR 0x80],
      [CHR 0xE2, CHR 0x80, CHR 0x80], [CHR 0xE2, CHR 0x80, CHR 0x81],
      [CHR 0xE2, CHR 0x80, CHR 0x82], [CHR 0xE2, CHR 0x80, CHR 0x83],
      [CHR 0xE2, CHR 0x80, CHR 0x84], [CHR 0xE2, CHR 0x80, CHR 0x85],
      [CHR 0xE2, CHR 0x80, CHR 0x86], [CHR 0xE2, CHR 0x80, CHR 0x87],
      [CHR 0xE2, CHR 0x80, CHR 0x88], [CHR 0xE2, CHR 0x80, CHR 0x89],
      [CHR 0xE2, CHR 0x80, CHR 0x8A], [CHR 0xE2, CHR 0x80, CHR 0xA8],
      [CHR 0xE2, CHR 0x80, CHR 0xA9], [CHR 0xE2, CHR 0x80, CHR 0xAF],
      [CHR 0xE2, CHR 0x81, CHR 0x9F], [CHR 0xE3, CHR 0x80, CHR 0x80]]"

definition leadingSpace :: "string \<Rightarrow> nat" where
  "leadingSpace s = (case filter (HasPrefix s) spaceRunes of [] \<Rightarrow> 0 | r # _ \<Rightarrow> length r)"

definition trailingSpace :: "string \<Rightarrow> nat" where
  "trailingSpace s = (case filter (HasSuffix s) spaceRunes of [] \<Rightarrow> 0 | r # _ \<Rightarrow> length r)"

function TrimLeft :: "string \<Rightarrow> string" where
  "TrimLeft s = (if leadingSpace s = 0 \<or> s = [] then s else TrimLeft (drop (leadingSpace s) s))"
  by pat_completeness auto
termination
  by (relation "measure length") auto

function TrimRight :: "string \<Rightarrow> string" where
  "TrimRight s =
     (if trailingSpace s = 0 \<or> s = [] then s
      else TrimRight (take (length s - trailingSpace s) s))"
  by pat_completeness auto
termination
  by (relation "measure length") auto

declare TrimLeft.simps [simp del] TrimRight.simps [simp del]

definition TrimSpace :: "string \<Rightarrow> string" where
  "TrimSpace s = TrimRight (TrimLeft s)"

section \<open>Time (package time, in UTC)\<close>

text \<open>
  A \<open>time.Time\<close> is an instant: the number of nanoseconds since the zero Time
  (January 1 of year 1, 00:00:00 UTC). A \<open>time.Duration\<close> is a signed 64-bit count of
  nanoseconds. The process is taken to run in UTC, so that a calendar day is 24 hours.
\<close>

type_synonym time = int
type_synonym duration = int

definition Millisecond :: duration where "Millisecond = 1000000"
definition Minute :: duration where "Minute = 60000000000"
definition Hour :: duration where "Hour = 60 * Minute"
definition Day :: duration where "Day = 24 * Hour"

definition maxDuration :: duration where "maxDuration = 2 ^ 63 - 1"
definition minDuration :: duration where "minDuration = - (2 ^ 63)"

definition IsZero :: "time \<Rightarrow> bool" where
  "IsZero t = (t = 0)"

definition Before :: "time \<Rightarrow> time \<Rightarrow> bool" where
  "Before t u = (t < u)"

text \<open>\<open>t.Sub(u)\<close> is the difference, or the largest or smallest Duration when it does not fit.\<close>

definition Sub :: "time \<Rightarrow> time \<Rightarrow> duration" where
  "Sub t u =
     (if minDuration \<le> t - u \<and> t - u \<le> maxDuration then t - u
      else if t < u then minDuration else maxDuration)"

text \<open>The proleptic Gregorian calendar, days counted from January 1 of year 1.\<close>

definition civil_from_days :: "int \<Rightarrow> int \<times> int \<times> int" where
  "civil_from_days n =
     (let z = n + 306;
          era = z div 146097;
          doe = z - era * 146097;
          yoe = (doe - doe div 1460 + doe div 36524 - doe div 146096) div 365;
          doy = doe - (365 * yoe + yoe div 4 - yoe div 100);
          mp = (5 * doy + 2) div 153;
          d = doy - (153 * mp + 2) div 5 + 1;
          m = (if mp < 10 then mp + 3 else mp - 9)
      in (yoe + era * 400 + (if m \<le> 2 then 1 else 0), m, d))"

definition days_from_civil :: "int \<Rightarrow> int \<Rightarrow> int \<Rightarrow> int" where
  "days_from_civil y m d =
     (let y' = (if m \<le> 2 then y - 1 else y);
          era = y' div 400;
          yoe = y' - era * 400;
          doy = (153 * (if m > 2 then m - 3 else m + 9) + 2) div 5 + d - 1;
          doe = yoe * 365 + yoe div 4 - yoe div 100 + doy
      in era * 146097 + doe - 306)"

text \<open>
  \<open>t.AddDate(0, 0, days)\<close>: \<open>time.Date\<close> adds the day field to the day count of the first
  of the month, so in UTC the instant moves by whole days.
\<close>

definition AddDate_days :: "int \<Rightarrow> time \<Rightarrow> time" where
  "AddDate_days days t = t + days * Day"

text \<open>
  \<open>t.AddDate(0, months, 0)\<close>: the month field is shifted and normalised into the year,
  the day of the month and the time of day are kept; a day past the end of the new month
  runs over into the next one, as \<open>time.Date\<close> does.
\<close>

definition AddDate_months :: "int \<Rightarrow> time \<Rightarrow> time" where
  "AddDate_months months t =
     (case civil_from_days (t div Day) of (y, m, d) \<Rightarrow>
        (let mm = m - 1 + months
         in (days_from_civil (y + mm div 12) (mm mod 12 + 1) 1 + (d - 1)) * Day + t mod Day))"

text \<open>\<open>t.Format("2006-01-02")\<close>, kept as the three fields of the date.\<close>

definition Format_date :: "time \<Rightarrow> int \<times> int \<times> int" where
  "Format_date t = civil_from_days (t div Day)"

section \<open>The driver values of a time (main.go, timeValue)\<close>

text \<open>
  A datetime column holds NULL or the text of an instant in the layout
  \<open>2006-01-02 15:04:05.999\<close>, which keeps milliseconds. The text is represented by the
  instant it denotes. \<open>Value\<close> writes NULL for the zero Time; \<open>Scan\<close> reads NULL as the
  zero Time. Texts of this layout compare like the instants they denote.
\<close>

type_synonym sqltime = "int option"

definition timeValue_Value :: "time \<Rightarrow> sqltime" where
  "timeValue_Value v = (if IsZero v then None else Some (v - v mod Millisecond))"

definition timeValue_Scan :: "sqltime \<Rightarrow> time" where
  "timeValue_Scan src = (case src of None \<Rightarrow> 0 | Some t \<Rightarrow> t)"

section \<open>Meetings (client.go)\<close>

record MeetingURL =
  Name :: string
  URL :: string

record MeetingEvent =
  Date :: time
  Note :: string

record Meeting =
  ID :: string
  Type :: string
  Event :: MeetingEvent
  URLs :: "MeetingURL list"

fun URL_named :: "MeetingURL list \<Rightarrow> string \<Rightarrow> string" where
  "URL_named [] name = []"
| "URL_named (u # us) name = (if Name u = name then URL u else URL_named us name)"

definition Meeting_URL :: "Meeting \<Rightarrow> string \<Rightarrow> string" where
  "Meeting_URL m name = URL_named (URLs m) name"

record MeetingAgenda =
  ContentHTML :: string
  ContentText :: string
  ContentURLs :: "string list"

section \<open>The store (main.go, initDB)\<close>

text \<open>
  Each table is the list of its rows in insertion order. A table without an integer
  primary key numbers its rows by \<open>rowid\<close>; the full-text tables name the row of the
  content table they index by that number. No statement of the program deletes a row.
\<close>

record agenda_content_row =
  ac_rowid :: int
  ac_id :: string
  ac_text :: string
  ac_html :: string

record agenda_search_row =
  as_rowid :: "int option"
  as_text :: string

record meeting_row =
  m_id :: string
  m_type :: string
  m_date :: "int \<times> int \<times> int"
  m_schedule_note :: string
  m_last_observed :: sqltime
  m_updated :: sqltime
  m_agenda_url :: string
  m_minutes_url :: string
  m_video_url :: string
  m_agenda_content_id :: string

record version_row =
  mv_meeting_id :: string
  mv_observed :: sqltime
  mv_schedule_note :: string
  mv_agenda_url :: string
  mv_minutes_url :: string
  mv_video_url :: string
  mv_agenda_content_id :: string

record content_row =
  ec_rowid :: int
  ec_id :: string
  ec_title :: string
  ec_text :: string

record content_search_row =
  es_rowid :: "int option"
  es_title :: string
  es_text :: string

record url_row =
  u_url :: string
  u_added :: sqltime
  u_fetched :: sqltime
  u_content_type :: "string option"
  u_size :: "int option"
  u_last_modified :: sqltime
  u_etag :: "string option"
  u_error :: "string option"
  u_external_content_id :: "string option"

record link_row =
  l_meeting_id :: string
  l_agenda_content_id :: string
  l_external_content_url :: string

record store =
  meeting_agenda_content :: "agenda_content_row list"
  meeting_agenda_content_search :: "agenda_search_row list"
  meetings :: "meeting_row list"
  meeting_versions :: "version_row list"
  external_content :: "content_row list"
  external_content_search :: "content_search_row list"
  external_content_urls :: "url_row list"
  meeting_external_content_urls :: "link_row list"

definition initDB :: store where
  "initDB = \<lparr>meeting_agenda_content = [], meeting_agenda_content_search = [], meetings = [],
     meeting_versions = [], external_content = [], external_content_search = [],
     external_content_urls = [], meeting_external_content_urls = []\<rparr>"

text \<open>
  The statements of the program. The driver may report a failure of any of them (a busy
  or broken database file); \<open>faults\<close> says which, with the driver's message.
\<close>

datatype stmt =
    TxBegin | TxCommit
  | InsertAgendaContent | RowsAffected | InsertAgendaSearch | UpsertMeeting
  | InsertVersion | UpdateObserved | InsertURL string | InsertLink string
  | SelectMaxObserved | SelectLastObserved string
  | SelectUnfetched | UpdateURLError string | SelectContent string
  | InsertContent | InsertContentSearch | UpdateURL string

type_synonym faults = "stmt \<Rightarrow> string option"

definition noFaults :: faults where
  "noFaults = (\<lambda>s. None)"

text \<open>\<open>fmt.Errorf(ctx + ": %w", err)\<close>\<close>

definition wrap :: "string \<Rightarrow> string \<Rightarrow> string" where
  "wrap ctx e = ctx @ '': '' @ e"

definition failing :: "faults \<Rightarrow> stmt \<Rightarrow> string \<Rightarrow> string + 'a \<Rightarrow> string + 'a" where
  "failing flt s ctx k = (case flt s of Some e \<Rightarrow> Inl (wrap ctx e) | None \<Rightarrow> k)"

definition bindE :: "string + 'a \<Rightarrow> ('a \<Rightarrow> string + 'b) \<Rightarrow> string + 'b" where
  "bindE r k = (case r of Inl e \<Rightarrow> Inl e | Inr x \<Rightarrow> k x)"

definition wrapE :: "string \<Rightarrow> string + 'a \<Rightarrow> string + 'a" where
  "wrapE ctx r = (case r of Inl e \<Rightarrow> Inl (wrap ctx e) | Inr x \<Rightarrow> Inr x)"

definition next_rowid :: "int list \<Rightarrow> int" where
  "next_rowid ids = fold max ids 0 + 1"

text \<open>\<open>max(...)\<close> of SQL: the largest value that is not NULL, NULL when there is none.\<close>

definition sql_max :: "sqltime list \<Rightarrow> sqltime" where
  "sql_max vs = (case List.map_filter id vs of [] \<Rightarrow> None | t # ts \<Rightarrow> Some (fold max ts t))"

section \<open>Saving a meeting (meetings.go)\<close>

text \<open>\<open>insert into meeting_agenda_content ... on conflict (id) do nothing\<close>, with the rows affected.\<close>

definition insert_agenda_content :: "store \<Rightarrow> string \<Rightarrow> string \<Rightarrow> string \<Rightarrow> int \<times> store" where
  "insert_agenda_content db cid txt html =
     (if list_ex (\<lambda>r. ac_id r = cid) (meeting_agenda_content db) then (0, db)
      else (1, db\<lparr>meeting_agenda_content := meeting_agenda_content db @
              [\<lparr>ac_rowid = next_rowid (map ac_rowid (meeting_agenda_content db)),
                ac_id = cid, ac_text = txt, ac_html = html\<rparr>]\<rparr>))"

text \<open>\<open>select rowid from meeting_agenda_content where id=?\<close>\<close>

definition agenda_rowid :: "store \<Rightarrow> string \<Rightarrow> int option" where
  "agenda_rowid db cid =
     (case filter (\<lambda>r. ac_id r = cid) (meeting_agenda_content db) of
        [] \<Rightarrow> None | r # _ \<Rightarrow> Some (ac_rowid r))"

definition insert_agenda_search :: "store \<Rightarrow> string \<Rightarrow> string \<Rightarrow> store" where
  "insert_agenda_search db cid txt =
     db\<lparr>meeting_agenda_content_search := meeting_agenda_content_search db @
          [\<lparr>as_rowid = agenda_rowid db cid, as_text = txt\<rparr>]\<rparr>"

text \<open>\<open>insert into meetings ... on conflict (id) do update set ...\<close>\<close>

definition upsert_meeting ::
  "store \<Rightarrow> string \<Rightarrow> string \<Rightarrow> int \<times> int \<times> int \<Rightarrow> string \<Rightarrow> string \<Rightarrow> string \<Rightarrow> string \<Rightarrow> string \<Rightarrow> store" where
  "upsert_meeting db i ty dt note au mu vu cid =
     (if list_ex (\<lambda>r. m_id r = i) (meetings db)
      then db\<lparr>meetings := map (\<lambda>r. if m_id r = i
                 then r\<lparr>m_type := ty, m_date := dt, m_schedule_note := note, m_agenda_url := au,
                        m_minutes_url := mu, m_video_url := vu, m_agenda_content_id := cid\<rparr>
                 else r) (meetings db)\<rparr>
      else db\<lparr>meetings := meetings db @
             [\<lparr>m_id = i, m_type = ty, m_date = dt, m_schedule_note = note,
               m_last_observed = None, m_updated = None, m_agenda_url = au,
               m_minutes_url = mu, m_video_url = vu, m_agenda_content_id = cid\<rparr>]\<rparr>)"

text \<open>
  The columns of the unique constraint of \<open>meeting_versions\<close>: all but \<open>observed\<close>.
  The program writes Go strings to them, never NULL.
\<close>

definition version_key :: "version_row \<Rightarrow> string \<times> string \<times> string \<times> string \<times> string \<times> string" where
  "version_key v = (mv_meeting_id v, mv_schedule_note v, mv_agenda_url v, mv_minutes_url v,
     mv_video_url v, mv_agenda_content_id v)"

text \<open>\<open>insert into meeting_versions ... on conflict do nothing\<close>\<close>

definition insert_version :: "store \<Rightarrow> version_row \<Rightarrow> store" where
  "insert_version db v =
     (if list_ex (\<lambda>r. version_key r = version_key v) (meeting_versions db) then db
      else db\<lparr>meeting_versions := meeting_versions db @ [v]\<rparr>)"

text \<open>
  \<open>update meetings set updated=(select max(observed) from meeting_versions where
  meeting_id=id), last_observed=? where id=?\<close>
\<close>

definition max_observed :: "store \<Rightarrow> string \<Rightarrow> sqltime" where
  "max_observed db i =
     sql_max (map mv_observed (filter (\<lambda>v. mv_meeting_id v = i) (meeting_versions db)))"

definition update_observed :: "store \<Rightarrow> sqltime \<Rightarrow> string \<Rightarrow> store" where
  "update_observed db obs i =
     db\<lparr>meetings := map (\<lambda>r. if m_id r = i
           then r\<lparr>m_updated := max_observed db (m_id r), m_last_observed := obs\<rparr>
           else r) (meetings db)\<rparr>"

text \<open>\<open>insert into external_content_urls (url, added) values (?, ?) on conflict do nothing\<close>\<close>

definition insert_url :: "store \<Rightarrow> string \<Rightarrow> sqltime \<Rightarrow> store" where
  "insert_url db u added =
     (if list_ex (\<lambda>r. u_url r = u) (external_content_urls db) then db
      else db\<lparr>external_content_urls := external_content_urls db @
             [\<lparr>u_url = u, u_added = added, u_fetched = None, u_content_type = None,
               u_size = None, u_last_modified = None, u_etag = None, u_error = None,
               u_external_content_id = None\<rparr>]\<rparr>)"

text \<open>\<open>insert into meeting_external_content_urls ... on conflict do nothing\<close>\<close>

definition insert_link :: "store \<Rightarrow> link_row \<Rightarrow> store" where
  "insert_link db l =
     (if list_ex (\<lambda>r. r = l) (meeting_external_content_urls db) then db
      else db\<lparr>meeting_external_content_urls := meeting_external_content_urls db @ [l]\<rparr>)"

fun saveMeetingURLs_loop ::
  "faults \<Rightarrow> time \<Rightarrow> string \<Rightarrow> string \<Rightarrow> string list \<Rightarrow> store \<Rightarrow> string + store" where
  "saveMeetingURLs_loop flt observed meetingID agendaContentID [] db = Inr db"
| "saveMeetingURLs_loop flt observed meetingID agendaContentID (u # us) db =
     failing flt (InsertURL u) (''insert external content URL '' @ u)
       (failing flt (InsertLink u) (''insert meeting external content URL '' @ u)
          (saveMeetingURLs_loop flt observed meetingID agendaContentID us
             (insert_link (insert_url db u (timeValue_Value observed))
                \<lparr>l_meeting_id = meetingID, l_agenda_content_id = agendaContentID,
                 l_external_content_url = u\<rparr>)))"

definition saveMeetingURLs ::
  "faults \<Rightarrow> store \<Rightarrow> time \<Rightarrow> string \<Rightarrow> string \<Rightarrow> MeetingAgenda \<Rightarrow> string + store" where
  "saveMeetingURLs flt tx observed meetingID agendaContentID agenda =
     saveMeetingURLs_loop flt observed meetingID agendaContentID (ContentURLs agenda) tx"

text \<open>
  \<open>saveMeeting\<close>. The content identifier is the base-62 text of the SHA-224 sum;
  \<open>sum224\<close> stands for the two together. \<open>fmt.Fprintln\<close> feeds the HTML and a line feed
  to the sum. Everything runs in one transaction: an error rolls it back, and the store
  stays as it was, so the result is either the error or the committed store.
\<close>

definition saveMeeting ::
  "(string \<Rightarrow> string) \<Rightarrow> faults \<Rightarrow> store \<Rightarrow> Meeting \<Rightarrow> MeetingAgenda \<Rightarrow> time \<Rightarrow> string + store" where
  "saveMeeting sum224 flt db m agenda observed =
     (let contentID = sum224 (ContentHTML agenda @ [CHR 0x0A]);
          agendaURL = Meeting_URL m ''agenda''
      in if agendaURL = [] then Inl ''no agenda URL''
         else
          failing flt TxBegin ''begin tx''
          (failing flt InsertAgendaContent ''insert meeting agenda content''
          (case insert_agenda_content db contentID (ContentText agenda) (ContentHTML agenda) of
             (ra, tx1) \<Rightarrow>
          failing flt RowsAffected ''meeting agenda content rows affected''
          (bindE (if ra > 0
                  then failing flt InsertAgendaSearch ''insert meeting agenda content search''
                         (Inr (insert_agenda_search tx1 contentID (ContentText agenda)))
                  else Inr tx1)
          (\<lambda>tx2.
          failing flt UpsertMeeting ''insert meetings''
          (failing flt InsertVersion ''insert meeting_versions''
          (failing flt UpdateObserved ''update meetings last observed''
          (bindE (wrapE ''saving meeting links''
                    (saveMeetingURLs flt
                       (update_observed
                          (insert_version
                             (upsert_meeting tx2 (ID m) (Type m) (Format_date (Date (Event m)))
                                (Note (Event m)) agendaURL (Meeting_URL m ''minutes'')
                                (Meeting_URL m ''video'') contentID)
                             \<lparr>mv_meeting_id = ID m, mv_observed = timeValue_Value observed,
                              mv_schedule_note = Note (Event m), mv_agenda_url = agendaURL,
                              mv_minutes_url = Meeting_URL m ''minutes'',
                              mv_video_url = Meeting_URL m ''video'',
                              mv_agenda_content_id = contentID\<rparr>)
                          (timeValue_Value observed) (ID m))
                       observed (ID m) contentID agenda))
          (\<lambda>tx3. failing flt TxCommit ''commit'' (Inr tx3))))))))))"

section \<open>Freshness (meetings.go)\<close>

text \<open>\<open>select last_observed from meetings where id=?\<close>: the column of the first such row.\<close>

definition select_last_observed :: "store \<Rightarrow> string \<Rightarrow> sqltime option" where
  "select_last_observed db i =
     (case filter (\<lambda>r. m_id r = i) (meetings db) of
        [] \<Rightarrow> None | r # _ \<Rightarrow> Some (m_last_observed r))"

definition jitter :: duration where
  "jitter = 2 * Hour"

text \<open>
  \<open>isMeetingFresh\<close>. \<open>now\<close> is what \<open>time.Now()\<close> returns in the call and \<open>rnd\<close> what
  \<open>rand.N(jitter)\<close> returns, a duration from 0 up to but excluding \<open>jitter\<close>.
\<close>

definition isMeetingFresh :: "faults \<Rightarrow> store \<Rightarrow> Meeting \<Rightarrow> time \<Rightarrow> duration \<Rightarrow> string + bool" where
  "isMeetingFresh flt db m now rnd =
     failing flt (SelectLastObserved (ID m)) ''select last observed''
       (case select_last_observed db (ID m) of
          None \<Rightarrow> Inr False
        | Some src \<Rightarrow>
            (let lastObserved = timeValue_Scan src;
                 threshold = (if Before (Date (Event m)) (AddDate_days (- 7) now)
                              then 24 * Hour + (rnd - jitter div 2)
                              else Hour - 2 * Minute)
             in Inr (Sub now lastObserved < threshold)))"

section \<open>The crawl (meetings.go)\<close>

text \<open>
  A source of meetings: \<open>List\<close> takes a page token and returns the meetings of the page
  and the token of the next page, \<open>Agenda\<close> fetches the agenda behind a URL.
\<close>

record client =
  c_List :: "string \<Rightarrow> string + Meeting list \<times> string"
  c_Agenda :: "string \<Rightarrow> string + MeetingAgenda"

text \<open>
  What a run reads from outside: the clock at the start, the clock and the random
  draw of each freshness check (numbered in the order of the checks), the clock at each
  save (numbered by the position in the queue), and the faults of the database.
\<close>

record run_env =
  clock0 :: time
  fresh_clock :: "nat \<Rightarrow> time"
  fresh_rand :: "nat \<Rightarrow> duration"
  save_clock :: "nat \<Rightarrow> time"
  db_faults :: faults

text \<open>
  The inner loop over the meetings of one page. The result says whether a meeting before
  the cutoff was met (\<open>break outer\<close>), how many freshness checks the run has made, and the
  queue.
\<close>

fun scanPage ::
  "run_env \<Rightarrow> store \<Rightarrow> time \<Rightarrow> 'c \<Rightarrow> Meeting list \<Rightarrow> nat \<Rightarrow> (Meeting \<times> 'c) list \<Rightarrow>
   string + bool \<times> nat \<times> (Meeting \<times> 'c) list" where
  "scanPage env db cutoff c [] k need = Inr (False, k, need)"
| "scanPage env db cutoff c (m # ms) k need =
     (if Before (Date (Event m)) cutoff then Inr (True, k, need)
      else (case isMeetingFresh (db_faults env) db m (fresh_clock env k) (fresh_rand env k) of
              Inl e \<Rightarrow> Inl (wrap ''checking freshness'' e)
            | Inr fresh \<Rightarrow>
                if fresh then scanPage env db cutoff c ms (Suc k) need
                else scanPage env db cutoff c ms (Suc k) (need @ [(m, c)])))"

text \<open>
  The loop over the pages of one source. A source may hand out tokens for ever, so the
  loop takes fuel and returns \<open>None\<close> when it runs out. The result carries the tokens
  given to \<open>List\<close>, one for each call.
\<close>

fun listPages ::
  "nat \<Rightarrow> run_env \<Rightarrow> store \<Rightarrow> time \<Rightarrow> client \<Rightarrow> string \<Rightarrow> string list \<Rightarrow> nat \<Rightarrow>
   (Meeting \<times> client) list \<Rightarrow> ((string + nat \<times> (Meeting \<times> client) list) \<times> string list) option" where
  "listPages 0 env db cutoff c token calls k need = None"
| "listPages (Suc fuel) env db cutoff c token calls k need =
     (case c_List c token of
        Inl e \<Rightarrow> Some (Inl (wrap ''listing meetings'' e), calls @ [token])
      | Inr (page, nextToken) \<Rightarrow>
          (case scanPage env db cutoff c page k need of
             Inl e \<Rightarrow> Some (Inl e, calls @ [token])
           | Inr (stop, k', need') \<Rightarrow>
               if stop \<or> nextToken = [] then Some (Inr (k', need'), calls @ [token])
               else listPages fuel env db cutoff c nextToken (calls @ [token]) k' need'))"


text \<open>\<open>select max(last_observed) from meetings\<close>, and the cutoff computed from it.\<close>

definition select_max_last_observed :: "store \<Rightarrow> sqltime" where
  "select_max_last_observed db = sql_max (map m_last_observed (meetings db))"

definition crawl_cutoff :: "store \<Rightarrow> time \<Rightarrow> time" where
  "crawl_cutoff db now =
     (let maxObserved = timeValue_Scan (select_max_last_observed db)
      in if \<not> IsZero maxObserved then AddDate_months (- 8) maxObserved
         else AddDate_months (- 1) now)"




section \<open>The eScribe source (client.go)\<close>

text \<open>The fields of a listed meeting that \<open>EscribeClient.List\<close> reads.\<close>

record document_link =
  dl_Type :: string
  dl_Format :: string
  dl_Title :: string
  dl_URL :: string

record escribe_meeting =
  dm_ID :: string
  dm_MeetingType :: string
  dm_StartDate :: string
  dm_MeetingDocumentLink :: "document_link list"

text \<open>
  What \<open>List\<close> gets from outside: the outcome of the request (a failure of the client, a
  failure while reading the body, or the status with the body), what \<open>json.Unmarshal\<close>
  makes of a body, what \<open>time.Parse\<close> makes of a date in the layout \<open>2006/01/02\<close>, what
  resolving a reference against the base URL gives (\<open>None\<close> when it does not parse), and
  the failures of the steps before the request.
\<close>

datatype http_reply = DoFailed string | ReadFailed string | Replied nat string

record escribe_env =
  e_parse_base :: "string option"
  e_marshal :: "string option"
  e_new_request :: "string option"
  e_do :: http_reply
  e_unmarshal :: "string \<Rightarrow> string + escribe_meeting list"
  e_parse_date :: "string \<Rightarrow> string + time"
  e_resolve :: "string \<Rightarrow> string option"

definition escribe_abs :: "escribe_env \<Rightarrow> string \<Rightarrow> string" where
  "escribe_abs env su =
     (if su = [] then [] else (case e_resolve env su of None \<Rightarrow> [] | Some r \<Rightarrow> r))"

fun escribe_links :: "escribe_env \<Rightarrow> document_link list \<Rightarrow> MeetingURL list \<times> bool \<Rightarrow> MeetingURL list \<times> bool" where
  "escribe_links env [] acc = acc"
| "escribe_links env (dl # dls) (urls, hasAgenda) =
     (if dl_Type dl = ''Agenda'' \<and> dl_Format dl = ''HTML''
      then escribe_links env dls (urls @ [\<lparr>Name = ''agenda'', URL = escribe_abs env (dl_URL dl)\<rparr>], True)
      else if dl_Type dl = ''AdditionalDocuments'' \<and> dl_Format dl = ''.pdf''
              \<and> Contains (dl_Title dl) ''Minutes''
      then escribe_links env dls (urls @ [\<lparr>Name = ''minutes'', URL = escribe_abs env (dl_URL dl)\<rparr>], hasAgenda)
      else if dl_Type dl = ''Video''
      then escribe_links env dls (urls @ [\<lparr>Name = ''video'', URL = escribe_abs env (dl_URL dl)\<rparr>], hasAgenda)
      else escribe_links env dls (urls, hasAgenda))"

fun escribe_meetings :: "escribe_env \<Rightarrow> escribe_meeting list \<Rightarrow> Meeting list \<Rightarrow> string + Meeting list" where
  "escribe_meetings env [] ms = Inr ms"
| "escribe_meetings env (dm # dms) ms =
     (case Cut_blank (dm_StartDate dm) of (startDate, rest, ok) \<Rightarrow>
        if \<not> ok then Inl (''bad start date '' @ dm_StartDate dm)
        else (case e_parse_date env startDate of
                Inl e \<Rightarrow> Inl (wrap (''bad date '' @ startDate) e)
              | Inr date \<Rightarrow>
                  (let meetingType = (if dm_MeetingType dm = ''Halifax Regional Council''
                                      then ''Regional Council'' else dm_MeetingType dm)
                   in case escribe_links env (dm_MeetingDocumentLink dm) ([], False) of
                        (urls, hasAgenda) \<Rightarrow>
                          if \<not> hasAgenda \<and> Contains meetingType ''Continuation''
                          then escribe_meetings env dms ms
                          else escribe_meetings env dms
                                 (ms @ [\<lparr>ID = dm_ID dm, Type = meetingType,
                                    Event = \<lparr>Date = date, Note = []\<rparr>, URLs = urls\<rparr>]))))"

text \<open>
  \<open>EscribeClient.List\<close>. The second component counts the requests sent to the network.
\<close>

definition EscribeClient_List ::
  "escribe_env \<Rightarrow> string \<Rightarrow> (string + Meeting list \<times> string) \<times> nat" where
  "EscribeClient_List env token =
     (if token \<noteq> [] then (Inl ''escribe does not support pagination'', 0)
      else (case e_parse_base env of
        Some e \<Rightarrow> (Inl (wrap ''parsing URL'' e), 0)
      | None \<Rightarrow> (case e_marshal env of
        Some e \<Rightarrow> (Inl (wrap ''marshal'' e), 0)
      | None \<Rightarrow> (case e_new_request env of
        Some e \<Rightarrow> (Inl (wrap ''new request'' e), 0)
      | None \<Rightarrow> (case e_do env of
          DoFailed e \<Rightarrow> (Inl (wrap ''get'' e), 1)
        | ReadFailed e \<Rightarrow> (Inl (wrap ''read body'' e), 1)
        | Replied status b \<Rightarrow>
            (if status \<noteq> 200 then (Inl (wrap ''bad status'' b), 1)
             else (case e_unmarshal env b of
                     Inl e \<Rightarrow> (Inl (wrap ''unmarshal'' e), 1)
                   | Inr d \<Rightarrow>
                       (case escribe_meetings env d [] of
                          Inl e \<Rightarrow> (Inl e, 1)
                        | Inr ms \<Rightarrow> (Inr (ms, []), 1)))))))))"

text \<open>The eScribe source as the crawl sees it.\<close>

definition escribeClient :: "escribe_env \<Rightarrow> (string \<Rightarrow> string + MeetingAgenda) \<Rightarrow> client" where
  "escribeClient env agenda = \<lparr>c_List = (\<lambda>token. fst (EscribeClient_List env token)), c_Agenda = agenda\<rparr>"

section \<open>External content (content.go)\<close>

record content =
  c_id :: string
  c_title :: string
  c_text :: string

text \<open>\<open>select url from external_content_urls where fetched is null limit 500\<close>\<close>

definition unfetchedURLs :: "faults \<Rightarrow> store \<Rightarrow> string + string list" where
  "unfetchedURLs flt db =
     failing flt SelectUnfetched ''select''
       (Inr (take 500 (map u_url (filter (\<lambda>r. u_fetched r = None) (external_content_urls db)))))"

subsection \<open>Fetching\<close>

text \<open>
  What a fetch gets from outside: the reply to the GET (the request cannot be built,
  the client fails, or a response arrives with its status, the three headers read and
  its body), the failures of the temporary file, and what \<open>time.Parse\<close> makes of a
  \<open>Last-Modified\<close> header in the RFC 1123 layout.
\<close>

record http_response =
  r_status :: nat
  r_content_type :: string
  r_last_modified :: string
  r_etag :: string
  r_body :: string

datatype fetch_reply = NewRequestFailed string | GetFailed string | Response http_response

record fetch_env =
  f_get :: "string \<Rightarrow> fetch_reply"
  f_create_temp :: "string option"
  f_copy :: "string option"
  f_seek :: "string option"
  f_parse_rfc1123 :: "string \<Rightarrow> time option"

text \<open>\<open>uc_f\<close> is the temporary file, that is, the bytes copied into it.\<close>

record urlContent =
  uc_f :: string
  uc_contentType :: string
  uc_contentID :: string
  uc_size :: int
  uc_lastModified :: time
  uc_etag :: string

definition fetchURLContent :: "(string \<Rightarrow> string) \<Rightarrow> fetch_env \<Rightarrow> string \<Rightarrow> string + urlContent" where
  "fetchURLContent sum224 env u =
     (case f_get env u of
        NewRequestFailed e \<Rightarrow> Inl (wrap ''new request'' e)
      | GetFailed e \<Rightarrow> Inl (wrap ''fetch'' e)
      | Response resp \<Rightarrow>
          (if r_status resp \<noteq> 200 then Inl ''fetch: bad status''
           else (case f_create_temp env of Some e \<Rightarrow> Inl (wrap ''fetch'' e) | None \<Rightarrow>
                (case f_copy env of Some e \<Rightarrow> Inl (wrap ''fetch'' e) | None \<Rightarrow>
                (case f_seek env of Some e \<Rightarrow> Inl (wrap ''fetch'' e) | None \<Rightarrow>
                   Inr \<lparr>uc_f = r_body resp,
                        uc_contentType = r_content_type resp,
                        uc_contentID = sum224 (r_body resp),
                        uc_size = int (length (r_body resp)),
                        uc_lastModified =
                          (if r_last_modified resp \<noteq> []
                           then (case f_parse_rfc1123 env (r_last_modified resp) of
                                   Some t \<Rightarrow> t | None \<Rightarrow> 0)
                           else 0),
                        uc_etag = r_etag resp\<rparr>)))))"

subsection \<open>Text of a PDF\<close>

record pdf =
  p_title :: string
  p_text :: string

text \<open>
  The four tools are programs outside the repository. \<open>pdfinfo\<close> and \<open>pdftotext\<close> map
  the bytes of the file to their output or fail; \<open>pdftoppm\<close> fills the temporary
  directory with files or fails; \<open>tesseract\<close> maps the file and the name of a page image
  to the text it writes beside that image, or fails. Every failure carries a message;
  a run that exceeds the deadline of five minutes is one of the failures.
\<close>

record pdf_env =
  x_pdfinfo :: "string \<Rightarrow> string + string"
  x_pdftotext :: "string \<Rightarrow> string + string"
  x_mkdir_temp :: "string option"
  x_pdftoppm :: "string \<Rightarrow> string + (string \<times> string) list"
  x_tesseract :: "string \<Rightarrow> string \<Rightarrow> string + string"
  x_read_file :: "string \<Rightarrow> string option"

datatype tool_call = Pdfinfo | Pdftotext | Pdftoppm | Tesseract string

text \<open>The line of \<open>pdfinfo\<close> that carries the title, and the title made of it.\<close>

fun title_line :: "string list \<Rightarrow> string" where
  "title_line [] = []"
| "title_line (l # ls) = (if HasPrefix l ''Title:'' then l else title_line ls)"

definition pdf_title :: "string \<Rightarrow> string" where
  "pdf_title out =
     TrimSpace (TrimSuffix (TrimSpace (TrimPrefix (title_line (Split_lines out)) ''Title:''))
       ''| Halifax.ca'')"

text \<open>
  The temporary directory is the list of its files, name and content.
  \<open>filepath.Glob\<close> with the pattern \<open>page*.png\<close> or \<open>page*.txt\<close> returns the matching
  names sorted as \<open>sort.Strings\<close> sorts them.
\<close>

type_synonym directory = "(string \<times> string) list"

definition glob_match :: "string \<Rightarrow> string \<Rightarrow> bool" where
  "glob_match ext name = (HasPrefix name ''page'' \<and> HasSuffix (drop 4 name) ext)"

definition Glob :: "directory \<Rightarrow> string \<Rightarrow> string list" where
  "Glob dir ext = sort (remdups (filter (glob_match ext) (map fst dir)))"

definition write_file :: "directory \<Rightarrow> string \<Rightarrow> string \<Rightarrow> directory" where
  "write_file dir name data = filter (\<lambda>e. fst e \<noteq> name) dir @ [(name, data)]"

text \<open>\<open>tesseract pageFn pageFn\<close> for every page image, in the order of the list.\<close>

fun run_tesseract ::
  "pdf_env \<Rightarrow> string \<Rightarrow> string list \<Rightarrow> directory \<Rightarrow> tool_call list \<Rightarrow> (string + directory) \<times> tool_call list" where
  "run_tesseract env f [] dir trace = (Inr dir, trace)"
| "run_tesseract env f (pageFn # pageFns) dir trace =
     (case x_tesseract env f pageFn of
        Inl e \<Rightarrow> (Inl (wrap ''tesseract'' e), trace @ [Tesseract pageFn])
      | Inr txt \<Rightarrow>
          run_tesseract env f pageFns (write_file dir (pageFn @ ''.txt'') txt)
            (trace @ [Tesseract pageFn]))"

text \<open>Reading the text files in the order of the list, each followed by a line feed.\<close>

fun read_texts :: "pdf_env \<Rightarrow> directory \<Rightarrow> string list \<Rightarrow> string \<Rightarrow> string + string" where
  "read_texts env dir [] txt = Inr txt"
| "read_texts env dir (textFn # textFns) txt =
     (case x_read_file env textFn of
        Some e \<Rightarrow> Inl (wrap ''read text'' e)
      | None \<Rightarrow>
          (case map_of dir textFn of
             None \<Rightarrow> Inl ''read text: file does not exist''
           | Some b \<Rightarrow> read_texts env dir textFns (txt @ b @ [CHR 0x0A])))"

text \<open>\<open>processPDF\<close>, with the tools it has run, in order.\<close>

definition processPDF :: "pdf_env \<Rightarrow> string \<Rightarrow> (string + pdf) \<times> tool_call list" where
  "processPDF env f =
     (case x_pdfinfo env f of
        Inl e \<Rightarrow> (Inl (wrap ''pdfinfo'' e), [Pdfinfo])
      | Inr info \<Rightarrow>
          (let title = pdf_title info in
           case x_pdftotext env f of
             Inl e \<Rightarrow> (Inl (wrap ''pdftotext'' e), [Pdfinfo, Pdftotext])
           | Inr out \<Rightarrow>
               (if TrimSpace out \<noteq> []
                then (Inr \<lparr>p_title = title, p_text = TrimSpace out\<rparr>, [Pdfinfo, Pdftotext])
                else (case x_mkdir_temp env of
                   Some e \<Rightarrow> (Inl (wrap ''mkdir temp'' e), [Pdfinfo, Pdftotext])
                 | None \<Rightarrow>
                     (case x_pdftoppm env f of
                        Inl e \<Rightarrow> (Inl (wrap ''pdftoppm'' e), [Pdfinfo, Pdftotext, Pdftoppm])
                      | Inr dir \<Rightarrow>
                          (case run_tesseract env f (Glob dir ''.png'') dir
                                  [Pdfinfo, Pdftotext, Pdftoppm] of
                             (Inl e, trace) \<Rightarrow> (Inl e, trace)
                           | (Inr dir', trace) \<Rightarrow>
                               (case read_texts env dir' (Glob dir' ''.txt'') [] of
                                  Inl e \<Rightarrow> (Inl e, trace)
                                | Inr txt \<Rightarrow>
                                    (Inr \<lparr>p_title = title, p_text = TrimSpace txt\<rparr>, trace))))))))"

subsection \<open>Processing one URL\<close>

text \<open>\<open>update external_content_urls set fetched=?, error=? where url=?\<close>\<close>

definition saveErr :: "faults \<Rightarrow> store \<Rightarrow> string \<Rightarrow> time \<Rightarrow> string \<Rightarrow> string + store" where
  "saveErr flt db u now ferr =
     failing flt (UpdateURLError u) ''update external_content_urls''
       (Inr (db\<lparr>external_content_urls := map (\<lambda>r. if u_url r = u
               then r\<lparr>u_fetched := timeValue_Value now, u_error := Some ferr\<rparr> else r)
               (external_content_urls db)\<rparr>))"

text \<open>\<open>select 1 from external_content where id=?\<close>: the flag and the error returned.\<close>

definition contentExists :: "faults \<Rightarrow> store \<Rightarrow> string \<Rightarrow> bool \<times> string option" where
  "contentExists flt db i =
     (case flt (SelectContent i) of
        Some e \<Rightarrow> (False, Some (wrap ''select'' e))
      | None \<Rightarrow> (list_ex (\<lambda>r. ec_id r = i) (external_content db), None))"

definition content_rowid :: "store \<Rightarrow> string \<Rightarrow> int option" where
  "content_rowid db i =
     (case filter (\<lambda>r. ec_id r = i) (external_content db) of
        [] \<Rightarrow> None | r # _ \<Rightarrow> Some (ec_rowid r))"

definition insert_content :: "store \<Rightarrow> content \<Rightarrow> store" where
  "insert_content db c =
     (if list_ex (\<lambda>r. ec_id r = c_id c) (external_content db) then db
      else db\<lparr>external_content := external_content db @
             [\<lparr>ec_rowid = next_rowid (map ec_rowid (external_content db)),
               ec_id = c_id c, ec_title = c_title c, ec_text = c_text c\<rparr>]\<rparr>)"

definition insert_content_search :: "store \<Rightarrow> content \<Rightarrow> store" where
  "insert_content_search db c =
     db\<lparr>external_content_search := external_content_search db @
          [\<lparr>es_rowid = content_rowid db (c_id c), es_title = c_title c, es_text = c_text c\<rparr>]\<rparr>"

definition saveContent :: "faults \<Rightarrow> store \<Rightarrow> content \<Rightarrow> string + store" where
  "saveContent flt tx c =
     failing flt InsertContent ''insert content''
       (failing flt InsertContentSearch ''insert content search''
          (Inr (insert_content_search (insert_content tx c) c)))"

text \<open>
  \<open>update external_content_urls set fetched=?, content_type=?, size=?, last_modified=?,
  etag=?, error=?, external_content_id=? where url=?\<close>
\<close>

definition update_url :: "store \<Rightarrow> string \<Rightarrow> time \<Rightarrow> urlContent \<Rightarrow> string \<Rightarrow> store" where
  "update_url db u now uc cid =
     db\<lparr>external_content_urls := map (\<lambda>r. if u_url r = u
          then r\<lparr>u_fetched := timeValue_Value now,
                 u_content_type := Some (uc_contentType uc),
                 u_size := Some (uc_size uc),
                 u_last_modified := timeValue_Value (uc_lastModified uc),
                 u_etag := (if uc_etag uc \<noteq> [] then Some (uc_etag uc) else None),
                 u_error := None,
                 u_external_content_id := Some cid\<rparr>
          else r) (external_content_urls db)\<rparr>"

text \<open>The transaction at the end of \<open>processURL\<close>.\<close>

definition store_fetched ::
  "faults \<Rightarrow> store \<Rightarrow> string \<Rightarrow> time \<Rightarrow> urlContent \<Rightarrow> bool \<Rightarrow> content \<Rightarrow> string + store" where
  "store_fetched flt db u now uc exists c =
     failing flt TxBegin ''begin tx''
       (bindE (if \<not> exists then wrapE (''saving content ID '' @ c_id c) (saveContent flt db c)
               else Inr db)
          (\<lambda>tx. failing flt (UpdateURL u) ''update external_content_urls''
                  (failing flt TxCommit ''commit'' (Inr (update_url tx u now uc (c_id c))))))"

text \<open>
  \<open>processURL\<close>, with the tools run for it. \<open>now\<close> is what \<open>time.Now()\<close> returns at its
  start. An error leaves the store as it was. After \<open>processPDF\<close> the source tests
  \<open>err\<close>, the error that \<open>contentExists\<close> returned, and not \<open>perr\<close>; the model does the
  same. When \<open>processPDF\<close> fails, \<open>p\<close> is the empty struct.
\<close>

definition processURL ::
  "(string \<Rightarrow> string) \<Rightarrow> faults \<Rightarrow> fetch_env \<Rightarrow> pdf_env \<Rightarrow> store \<Rightarrow> string \<Rightarrow> time \<Rightarrow>
   (string + store) \<times> tool_call list" where
  "processURL sum224 flt fenv penv db u now =
     (case fetchURLContent sum224 fenv u of
        Inl ferr \<Rightarrow> (wrapE ''save error'' (saveErr flt db u now ferr), [])
      | Inr uc \<Rightarrow>
          (case contentExists flt db (uc_contentID uc) of (exists, err) \<Rightarrow>
             (case err of
                Some e \<Rightarrow>
                  (Inl (wrap (''checking content ID '' @ uc_contentID uc @ '' existence'') e), [])
              | None \<Rightarrow>
                  (if \<not> exists \<and> uc_contentType uc = ''application/pdf''
                   then (case processPDF penv (uc_f uc) of (pres, trace) \<Rightarrow>
                           (if err \<noteq> None
                            then (wrapE ''save error''
                                    (saveErr flt db u now (case pres of Inl perr \<Rightarrow> perr | Inr p \<Rightarrow> [])),
                                  trace)
                            else (let p = (case pres of Inl perr \<Rightarrow> \<lparr>p_title = [], p_text = []\<rparr>
                                                       | Inr p \<Rightarrow> p)
                                  in (store_fetched flt db u now uc exists
                                        \<lparr>c_id = uc_contentID uc, c_title = p_title p,
                                         c_text = p_text p\<rparr>, trace))))
                   else (store_fetched flt db u now uc exists
                           \<lparr>c_id = uc_contentID uc, c_title = [], c_text = []\<rparr>, [])))))"

subsection \<open>The backlog\<close>

text \<open>
  What a run of the pipeline reads from outside, for the URL at each position of the
  backlog: whether the rate limiter fails, the clock, the network, the tools, and the
  time elapsed since the start once the URL is done.
\<close>

record urls_env =
  y_lookpath :: "string \<Rightarrow> string option"
  y_wait :: "nat \<Rightarrow> string option"
  y_clock :: "nat \<Rightarrow> time"
  y_fetch :: "nat \<Rightarrow> fetch_env"
  y_pdf :: "nat \<Rightarrow> pdf_env"
  y_since :: "nat \<Rightarrow> duration"
  y_faults :: faults

fun checkPDF_loop :: "urls_env \<Rightarrow> string list \<Rightarrow> string option" where
  "checkPDF_loop env [] = None"
| "checkPDF_loop env (cmd # cmds) =
     (case y_lookpath env cmd of
        Some e \<Rightarrow> Some (wrap (''missing '' @ cmd) e)
      | None \<Rightarrow> checkPDF_loop env cmds)"

definition checkPDF :: "urls_env \<Rightarrow> string option" where
  "checkPDF env = checkPDF_loop env [''pdfinfo'', ''pdftotext'', ''pdftoppm'', ''tesseract'']"

fun processURLs_loop ::
  "(string \<Rightarrow> string) \<Rightarrow> urls_env \<Rightarrow> string list \<Rightarrow> nat \<Rightarrow> store \<Rightarrow> string option \<times> store" where
  "processURLs_loop sum224 env [] i db = (None, db)"
| "processURLs_loop sum224 env (u # urls) i db =
     (case y_wait env i of
        Some e \<Rightarrow> (Some (wrap (''process '' @ u) e), db)
      | None \<Rightarrow>
          (case fst (processURL sum224 (y_faults env) (y_fetch env i) (y_pdf env i) db u (y_clock env i)) of
             Inl e \<Rightarrow> (Some (wrap (''process '' @ u) e), db)
           | Inr db' \<Rightarrow>
               if y_since env i > 30 * Minute then (None, db')
               else processURLs_loop sum224 env urls (Suc i) db'))"

definition processExternalContentURLs ::
  "(string \<Rightarrow> string) \<Rightarrow> urls_env \<Rightarrow> store \<Rightarrow> string option \<times> store" where
  "processExternalContentURLs sum224 env db =
     (case checkPDF env of
        Some e \<Rightarrow> (Some e, db)
      | None \<Rightarrow>
          (case unfetchedURLs (y_faults env) db of
             Inl e \<Rightarrow> (Some (wrap ''unfetched urls'' e), db)
           | Inr urls \<Rightarrow> processURLs_loop sum224 env urls 0 db))"

section \<open>Notions used in the statements\<close>

subsection \<open>The committed store of a save\<close>

text \<open>The first two statements of \<open>saveMeeting\<close>: the content row and, if it is new, its index row.\<close>

definition index_agenda :: "store \<Rightarrow> string \<Rightarrow> string \<Rightarrow> string \<Rightarrow> store" where
  "index_agenda db cid txt html =
     (case insert_agenda_content db cid txt html of
        (ra, tx1) \<Rightarrow> if ra > 0 then insert_agenda_search tx1 cid txt else tx1)"

text \<open>The loop of \<open>saveMeetingURLs\<close> when no statement fails.\<close>

fun register_urls :: "time \<Rightarrow> string \<Rightarrow> string \<Rightarrow> string list \<Rightarrow> store \<Rightarrow> store" where
  "register_urls observed meetingID agendaContentID [] db = db"
| "register_urls observed meetingID agendaContentID (u # us) db =
     register_urls observed meetingID agendaContentID us
       (insert_link (insert_url db u (timeValue_Value observed))
          \<lparr>l_meeting_id = meetingID, l_agenda_content_id = agendaContentID,
           l_external_content_url = u\<rparr>)"

text \<open>The version row that \<open>saveMeeting\<close> inserts.\<close>

definition version_of :: "(string \<Rightarrow> string) \<Rightarrow> Meeting \<Rightarrow> MeetingAgenda \<Rightarrow> time \<Rightarrow> version_row" where
  "version_of sum224 m agenda observed =
     \<lparr>mv_meeting_id = ID m, mv_observed = timeValue_Value observed,
      mv_schedule_note = Note (Event m), mv_agenda_url = Meeting_URL m ''agenda'',
      mv_minutes_url = Meeting_URL m ''minutes'', mv_video_url = Meeting_URL m ''video'',
      mv_agenda_content_id = sum224 (ContentHTML agenda @ [CHR 0x0A])\<rparr>"

text \<open>The store that a successful \<open>saveMeeting\<close> commits.\<close>

definition committed :: "(string \<Rightarrow> string) \<Rightarrow> store \<Rightarrow> Meeting \<Rightarrow> MeetingAgenda \<Rightarrow> time \<Rightarrow> store" where
  "committed sum224 db m agenda observed =
     register_urls observed (ID m) (sum224 (ContentHTML agenda @ [CHR 0x0A])) (ContentURLs agenda)
       (update_observed
          (insert_version
             (upsert_meeting
                (index_agenda db (sum224 (ContentHTML agenda @ [CHR 0x0A])) (ContentText agenda)
                   (ContentHTML agenda))
                (ID m) (Type m) (Format_date (Date (Event m))) (Note (Event m))
                (Meeting_URL m ''agenda'') (Meeting_URL m ''minutes'') (Meeting_URL m ''video'')
                (sum224 (ContentHTML agenda @ [CHR 0x0A])))
             (version_of sum224 m agenda observed))
          (timeValue_Value observed) (ID m))"

text \<open>
  The constraints of the schema on the agenda tables, and the tie between the content
  table and its index: the primary key, the row numbers, the unique constraint of the
  versions, and one index row for each content row.
\<close>

definition agenda_ok :: "store \<Rightarrow> bool" where
  "agenda_ok db =
     (distinct (map ac_id (meeting_agenda_content db)) \<and>
      distinct (map ac_rowid (meeting_agenda_content db)) \<and>
      distinct (map as_rowid (meeting_agenda_content_search db)) \<and>
      set (map as_rowid (meeting_agenda_content_search db)) =
        set (map (\<lambda>r. Some (ac_rowid r)) (meeting_agenda_content db)) \<and>
      distinct (map version_key (meeting_versions db)))"

text \<open>A row of \<open>meetings\<close> with the given key carries the given values of the upsert.\<close>

definition meeting_set :: "string \<Rightarrow> string \<Rightarrow> int \<times> int \<times> int \<Rightarrow> string \<Rightarrow> string \<Rightarrow> string \<Rightarrow> string \<Rightarrow> string \<Rightarrow> meeting_row \<Rightarrow> bool" where
  "meeting_set i ty dt note au mu vu cid r =
     (m_id r = i \<longrightarrow> m_type r = ty \<and> m_date r = dt \<and> m_schedule_note r = note \<and> m_agenda_url r = au
        \<and> m_minutes_url r = mu \<and> m_video_url r = vu \<and> m_agenda_content_id r = cid)"

subsection \<open>The words of the specification on freshness\<close>

text \<open>
  ``The date is within 7 days of now'', as the specification words it: the date and now
  are at most seven days apart, whichever comes first.
\<close>

definition spec_within_7_days :: "time \<Rightarrow> time \<Rightarrow> bool" where
  "spec_within_7_days date now = (\<bar>date - now\<bar> \<le> 7 * Day)"

text \<open>
  The threshold as the specification words it, for a jitter \<open>j\<close> between minus one hour
  and one hour.
\<close>

definition spec_threshold :: "time \<Rightarrow> time \<Rightarrow> duration \<Rightarrow> duration" where
  "spec_threshold date now j =
     (if spec_within_7_days date now then 58 * Minute else 24 * Hour + j)"

subsection \<open>Later runs of the program\<close>

text \<open>
  The two operations that write to the store, each with what it reads from outside. A
  failed operation leaves the store as it was. \<open>time.Now()\<close> never returns the zero Time.
\<close>

datatype action =
    Save faults Meeting MeetingAgenda time
  | Fetch faults fetch_env pdf_env string time

fun act :: "(string \<Rightarrow> string) \<Rightarrow> action \<Rightarrow> store \<Rightarrow> store" where
  "act sum224 (Save flt m agenda observed) db =
     (case saveMeeting sum224 flt db m agenda observed of Inl e \<Rightarrow> db | Inr db' \<Rightarrow> db')"
| "act sum224 (Fetch flt fenv penv u now) db =
     (case fst (processURL sum224 flt fenv penv db u now) of Inl e \<Rightarrow> db | Inr db' \<Rightarrow> db')"

fun real_clock :: "action \<Rightarrow> bool" where
  "real_clock (Save flt m agenda observed) = True"
| "real_clock (Fetch flt fenv penv u now) = (now \<noteq> 0)"

definition run_actions :: "(string \<Rightarrow> string) \<Rightarrow> action list \<Rightarrow> store \<Rightarrow> store" where
  "run_actions sum224 acts db = fold (act sum224) acts db"

text \<open>The URL has a row, and every row of it has a fetched timestamp.\<close>

definition url_fetched :: "store \<Rightarrow> string \<Rightarrow> bool" where
  "url_fetched db u =
     (list_ex (\<lambda>r. u_url r = u) (external_content_urls db) \<and>
      list_all (\<lambda>r. u_url r \<noteq> u \<or> u_fetched r \<noteq> None) (external_content_urls db))"

text \<open>The primary key of \<open>external_content\<close>.\<close>

definition content_ok :: "store \<Rightarrow> bool" where
  "content_ok db = distinct (map ec_id (external_content db))"

subsection \<open>The texts of the pages\<close>



subsection \<open>Sample inputs\<close>

text \<open>
  A meeting of October 31, 2024, its agenda with one linked document, and two
  observation times on that day: 01:00:00.000000001 and an hour later. In the samples
  the identity stands for the content sum.
\<close>

definition sample_meeting :: Meeting where
  "sample_meeting = \<lparr>ID = ''m1'', Type = ''Council'',
     Event = \<lparr>Date = 63865929600000000000, Note = []\<rparr>,
     URLs = [\<lparr>Name = ''agenda'', URL = ''a''\<rparr>]\<rparr>"

definition sample_agenda :: MeetingAgenda where
  "sample_agenda = \<lparr>ContentHTML = ''h'', ContentText = ''t'', ContentURLs = [''u'']\<rparr>"

definition sample_t1 :: time where
  "sample_t1 = 63865933200000000001"

definition sample_t2 :: time where
  "sample_t2 = 63865936800000000001"

text \<open>The store after the sample meeting is saved at the first time into the empty store.\<close>

definition sample_store1 :: store where
  "sample_store1 =
     \<lparr>meeting_agenda_content =
        [\<lparr>ac_rowid = 1, ac_id = [CHR ''h'', CHR 0x0A], ac_text = ''t'', ac_html = ''h''\<rparr>],
      meeting_agenda_content_search = [\<lparr>as_rowid = Some 1, as_text = ''t''\<rparr>],
      meetings =
        [\<lparr>m_id = ''m1'', m_type = ''Council'', m_date = (2024, 10, 31), m_schedule_note = [],
          m_last_observed = Some 63865933200000000000,
          m_updated = Some 63865933200000000000, m_agenda_url = ''a'',
          m_minutes_url = [], m_video_url = [],
          m_agenda_content_id = [CHR ''h'', CHR 0x0A]\<rparr>],
      meeting_versions =
        [\<lparr>mv_meeting_id = ''m1'', mv_observed = Some 63865933200000000000,
          mv_schedule_note = [], mv_agenda_url = ''a'', mv_minutes_url = [], mv_video_url = [],
          mv_agenda_content_id = [CHR ''h'', CHR 0x0A]\<rparr>],
      external_content = [], external_content_search = [],
      external_content_urls =
        [\<lparr>u_url = ''u'', u_added = Some 63865933200000000000, u_fetched = None,
          u_content_type = None, u_size = None, u_last_modified = None, u_etag = None,
          u_error = None, u_external_content_id = None\<rparr>],
      meeting_external_content_urls =
        [\<lparr>l_meeting_id = ''m1'', l_agenda_content_id = [CHR ''h'', CHR 0x0A],
          l_external_content_url = ''u''\<rparr>]\<rparr>"

text \<open>The store after the same meeting and agenda are saved again at the second time.\<close>

definition sample_store2 :: store where
  "sample_store2 = sample_store1\<lparr>meetings :=
        [\<lparr>m_id = ''m1'', m_type = ''Council'', m_date = (2024, 10, 31), m_schedule_note = [],
          m_last_observed = Some 63865936800000000000,
          m_updated = Some 63865933200000000000, m_agenda_url = ''a'',
          m_minutes_url = [], m_video_url = [],
          m_agenda_content_id = [CHR ''h'', CHR 0x0A]\<rparr>]\<rparr>"

text \<open>The sample meeting moved to November 30, 2024, thirty days after the sample day.\<close>

definition sample_future_meeting :: Meeting where
  "sample_future_meeting =
     sample_meeting\<lparr>Event := \<lparr>Date = 63868521600000000000, Note = []\<rparr>\<rparr>"

text \<open>The sample meeting moved to October 1, 2024, thirty days before the sample day.\<close>

definition sample_old_meeting :: Meeting where
  "sample_old_meeting =
     sample_meeting\<lparr>Event := \<lparr>Date = 63863337600000000000, Note = []\<rparr>\<rparr>"


definition sample_new_meeting :: Meeting where
  "sample_new_meeting = sample_meeting\<lparr>ID := ''m2''\<rparr>"


text \<open>A run half an hour after the second sample time, with a database that does not fail.\<close>

definition sample_run :: run_env where
  "sample_run =
     \<lparr>clock0 = 63865938600000000001,
      fresh_clock = (\<lambda>k. 63865938600000000001),
      fresh_rand = (\<lambda>k. Hour),
      save_clock = (\<lambda>i. 63865938600000000001),
      db_faults = noFaults\<rparr>"

text \<open>An eScribe reply with one meeting that has an agenda.\<close>

definition sample_escribe :: escribe_env where
  "sample_escribe =
     \<lparr>e_parse_base = None, e_marshal = None, e_new_request = None,
      e_do = Replied 200 ''b'',
      e_unmarshal = (\<lambda>b. Inr [\<lparr>dm_ID = ''e1'', dm_MeetingType = ''Halifax Regional Council'',
         dm_StartDate = ''2024/10/31 10:00'',
         dm_MeetingDocumentLink = [\<lparr>dl_Type = ''Agenda'', dl_Format = ''HTML'', dl_Title = ''Agenda'',
            dl_URL = ''a''\<rparr>]\<rparr>]),
      e_parse_date = (\<lambda>s. if s = ''2024/10/31'' then Inr 63865929600000000000 else Inl ''parse''),
      e_resolve = (\<lambda>su. Some (''https://pub-halifax.escribemeetings.com/'' @ su))\<rparr>"

text \<open>
  A document: the reply to its GET, a PDF of one byte with an entity tag, and a GET
  that fails.
\<close>

definition sample_fetch :: fetch_env where
  "sample_fetch =
     \<lparr>f_get = (\<lambda>u. Response \<lparr>r_status = 200, r_content_type = ''application/pdf'',
                  r_last_modified = [], r_etag = ''e1'', r_body = ''x''\<rparr>),
      f_create_temp = None, f_copy = None, f_seek = None,
      f_parse_rfc1123 = (\<lambda>s. None)\<rparr>"

definition sample_fetch_failed :: fetch_env where
  "sample_fetch_failed = sample_fetch\<lparr>f_get := (\<lambda>u. GetFailed ''timeout'')\<rparr>"

text \<open>
  Tools on a scanned document of two pages: the text layer is a single form feed, and
  the pages read ``one'' and ``two''. The same tools with a \<open>pdfinfo\<close> that fails, and
  with a text layer.
\<close>

definition sample_pdf :: pdf_env where
  "sample_pdf =
     \<lparr>x_pdfinfo = (\<lambda>f. Inr (''Pages: 2'' @ [CHR 0x0A] @ ''Title:   Agenda | Halifax.ca'' @ [CHR 0x0A])),
      x_pdftotext = (\<lambda>f. Inr [CHR 0x0C]),
      x_mkdir_temp = None,
      x_pdftoppm = (\<lambda>f. Inr [(''page-1.png'', ''i1''), (''page-2.png'', ''i2'')]),
      x_tesseract = (\<lambda>f p. if p = ''page-1.png'' then Inr ''one'' else Inr ''two''),
      x_read_file = (\<lambda>n. None)\<rparr>"

definition sample_pdf_broken :: pdf_env where
  "sample_pdf_broken = sample_pdf\<lparr>x_pdfinfo := (\<lambda>f. Inl ''exit status 1'')\<rparr>"


text \<open>A third time, half an hour after the second, and a store with a second link.\<close>

definition sample_t3 :: time where
  "sample_t3 = 63865938600000000001"

definition sample_store_urls :: store where
  "sample_store_urls = insert_url sample_store2 ''v'' (Some 63865936800000000000)"

text \<open>
  The store with the two links after the second link is processed at the third time,
  and after the first link is processed then too: both replies carry the same byte.
\<close>

definition sample_store_v :: store where
  "sample_store_v = sample_store_urls
     \<lparr>external_content :=
        [\<lparr>ec_rowid = 1, ec_id = ''x'', ec_title = ''Agenda'',
          ec_text = ''one'' @ [CHR 0x0A] @ ''two''\<rparr>],
      external_content_search :=
        [\<lparr>es_rowid = Some 1, es_title = ''Agenda'', es_text = ''one'' @ [CHR 0x0A] @ ''two''\<rparr>],
      external_content_urls :=
        [\<lparr>u_url = ''u'', u_added = Some 63865933200000000000, u_fetched = None,
          u_content_type = None, u_size = None, u_last_modified = None, u_etag = None,
          u_error = None, u_external_content_id = None\<rparr>,
         \<lparr>u_url = ''v'', u_added = Some 63865936800000000000,
          u_fetched = Some 63865938600000000000, u_content_type = Some ''application/pdf'',
          u_size = Some 1, u_last_modified = None, u_etag = Some ''e1'', u_error = None,
          u_external_content_id = Some ''x''\<rparr>]\<rparr>"

definition sample_store_uv :: store where
  "sample_store_uv = sample_store_v
     \<lparr>external_content_urls :=
        [\<lparr>u_url = ''u'', u_added = Some 63865933200000000000,
          u_fetched = Some 63865938600000000000, u_content_type = Some ''application/pdf'',
          u_size = Some 1, u_last_modified = None, u_etag = Some ''e1'', u_error = None,
          u_external_content_id = Some ''x''\<rparr>,
         \<lparr>u_url = ''v'', u_added = Some 63865936800000000000,
          u_fetched = Some 63865938600000000000, u_content_type = Some ''application/pdf'',
          u_size = Some 1, u_last_modified = None, u_etag = Some ''e1'', u_error = None,
          u_external_content_id = Some ''x''\<rparr>]\<rparr>"

text \<open>
  The second sample store after its URL is processed at the third time, with the reply
  above and the tools whose \<open>pdfinfo\<close> fails.
\<close>

definition sample_store_broken :: store where
  "sample_store_broken = sample_store2
     \<lparr>external_content := [\<lparr>ec_rowid = 1, ec_id = ''x'', ec_title = [], ec_text = []\<rparr>],
      external_content_search := [\<lparr>es_rowid = Some 1, es_title = [], es_text = []\<rparr>],
      external_content_urls :=
        [\<lparr>u_url = ''u'', u_added = Some 63865933200000000000,
          u_fetched = Some 63865938600000000000, u_content_type = Some ''application/pdf'',
          u_size = Some 1, u_last_modified = None, u_etag = Some ''e1'', u_error = None,
          u_external_content_id = Some ''x''\<rparr>]\<rparr>"

text \<open>
  A run of the pipeline at the third time: the limiter never fails, the GET of the URL
  at the first position of the backlog fails and the later ones succeed, and the run
  stays within its budget.
\<close>

definition sample_urls_env :: urls_env where
  "sample_urls_env =
     \<lparr>y_lookpath = (\<lambda>cmd. None),
      y_wait = (\<lambda>i. None),
      y_clock = (\<lambda>i. sample_t3),
      y_fetch = (\<lambda>i. if i = 0 then sample_fetch_failed else sample_fetch),
      y_pdf = (\<lambda>i. sample_pdf),
      y_since = (\<lambda>i. 0),
      y_faults = noFaults\<rparr>"

text \<open>
  The store with the two links after the fetch of the first has failed, and after the
  second has then been processed.
\<close>

definition sample_store_u_failed :: store where
  "sample_store_u_failed = sample_store_urls
     \<lparr>external_content_urls :=
        [\<lparr>u_url = ''u'', u_added = Some 63865933200000000000,
          u_fetched = Some 63865938600000000000, u_content_type = None, u_size = None,
          u_last_modified = None, u_etag = None, u_error = Some ''fetch: timeout'',
          u_external_content_id = None\<rparr>,
         \<lparr>u_url = ''v'', u_added = Some 63865936800000000000, u_fetched = None,
          u_content_type = None, u_size = None, u_last_modified = None, u_etag = None,
          u_error = None, u_external_content_id = None\<rparr>]\<rparr>"

definition sample_store_u_failed_v :: store where
  "sample_store_u_failed_v = sample_store_v
     \<lparr>external_content_urls :=
        [\<lparr>u_url = ''u'', u_added = Some 63865933200000000000,
          u_fetched = Some 63865938600000000000, u_content_type = None, u_size = None,
          u_last_modified = None, u_etag = None, u_error = Some ''fetch: timeout'',
          u_external_content_id = None\<rparr>,
         \<lparr>u_url = ''v'', u_added = Some 63865936800000000000,
          u_fetched = Some 63865938600000000000, u_content_type = Some ''application/pdf'',
          u_size = Some 1, u_last_modified = None, u_etag = Some ''e1'', u_error = None,
          u_external_content_id = Some ''x''\<rparr>]\<rparr>"

lemma failing_Inr: "failing flt s ctx k = Inr x \<longleftrightarrow> flt s = None \<and> k = Inr x"
  by (simp add: failing_def split: option.splits)

lemma failing_noFaults: "failing noFaults s ctx k = k"
  by (simp add: failing_def noFaults_def)

lemma bindE_Inr: "bindE r k = Inr x \<longleftrightarrow> (\<exists>y. r = Inr y \<and> k y = Inr x)"
  by (cases r) (simp_all add: bindE_def)

lemma wrapE_Inr: "wrapE ctx r = Inr x \<longleftrightarrow> r = Inr x"
  by (cases r) (simp_all add: wrapE_def)

lemma loop_Inr:
  "saveMeetingURLs_loop flt t mid cid us db = Inr db' \<Longrightarrow> db' = register_urls t mid cid us db"
  by (induction us arbitrary: db) (auto simp: failing_Inr)

lemma loop_noFaults:
  "saveMeetingURLs_loop noFaults t mid cid us db = Inr (register_urls t mid cid us db)"
  by (induction us arbitrary: db) (auto simp: failing_noFaults)

lemma saveMeeting_Inr:
  assumes "saveMeeting sum224 flt db m agenda t = Inr db1"
  shows "Meeting_URL m ''agenda'' \<noteq> [] \<and> db1 = committed sum224 db m agenda t"
  using assms
  unfolding saveMeeting_def committed_def index_agenda_def saveMeetingURLs_def version_of_def Let_def
  by (auto simp: failing_Inr bindE_Inr wrapE_Inr split: if_splits prod.splits dest: loop_Inr)

lemma saveMeeting_noFaults:
  assumes "Meeting_URL m ''agenda'' \<noteq> []"
  shows "saveMeeting sum224 noFaults db m agenda t = Inr (committed sum224 db m agenda t)"
  using assms
  unfolding saveMeeting_def committed_def index_agenda_def saveMeetingURLs_def version_of_def Let_def
  by (auto simp: failing_noFaults bindE_def wrapE_def loop_noFaults split: prod.splits)

lemma index_agenda_frame [simp]:
  "meetings (index_agenda db cid txt html) = meetings db"
  "meeting_versions (index_agenda db cid txt html) = meeting_versions db"
  "external_content_urls (index_agenda db cid txt html) = external_content_urls db"
  "meeting_external_content_urls (index_agenda db cid txt html) = meeting_external_content_urls db"
  "external_content (index_agenda db cid txt html) = external_content db"
  "external_content_search (index_agenda db cid txt html) = external_content_search db"
  by (simp_all add: index_agenda_def insert_agenda_content_def insert_agenda_search_def)

lemma upsert_frame [simp]:
  "meeting_agenda_content (upsert_meeting db i ty dt note au mu vu cid) = meeting_agenda_content db"
  "meeting_agenda_content_search (upsert_meeting db i ty dt note au mu vu cid) = meeting_agenda_content_search db"
  "meeting_versions (upsert_meeting db i ty dt note au mu vu cid) = meeting_versions db"
  "external_content_urls (upsert_meeting db i ty dt note au mu vu cid) = external_content_urls db"
  "meeting_external_content_urls (upsert_meeting db i ty dt note au mu vu cid) = meeting_external_content_urls db"
  "external_content (upsert_meeting db i ty dt note au mu vu cid) = external_content db"
  "external_content_search (upsert_meeting db i ty dt note au mu vu cid) = external_content_search db"
  by (simp_all add: upsert_meeting_def)

lemma insert_version_frame [simp]:
  "meeting_agenda_content (insert_version db v) = meeting_agenda_content db"
  "meeting_agenda_content_search (insert_version db v) = meeting_agenda_content_search db"
  "meetings (insert_version db v) = meetings db"
  "external_content_urls (insert_version db v) = external_content_urls db"
  "meeting_external_content_urls (insert_version db v) = meeting_external_content_urls db"
  "external_content (insert_version db v) = external_content db"
  "external_content_search (insert_version db v) = external_content_search db"
  by (simp_all add: insert_version_def)

lemma update_observed_frame [simp]:
  "meeting_agenda_content (update_observed db obs i) = meeting_agenda_content db"
  "meeting_agenda_content_search (update_observed db obs i) = meeting_agenda_content_search db"
  "meeting_versions (update_observed db obs i) = meeting_versions db"
  "external_content_urls (update_observed db obs i) = external_content_urls db"
  "meeting_external_content_urls (update_observed db obs i) = meeting_external_content_urls db"
  "external_content (update_observed db obs i) = external_content db"
  "external_content_search (update_observed db obs i) = external_content_search db"
  by (simp_all add: update_observed_def)

lemma insert_url_frame [simp]:
  "meeting_agenda_content (insert_url db u a) = meeting_agenda_content db"
  "meeting_agenda_content_search (insert_url db u a) = meeting_agenda_content_search db"
  "meetings (insert_url db u a) = meetings db"
  "meeting_versions (insert_url db u a) = meeting_versions db"
  "meeting_external_content_urls (insert_url db u a) = meeting_external_content_urls db"
  "external_content (insert_url db u a) = external_content db"
  "external_content_search (insert_url db u a) = external_content_search db"
  by (simp_all add: insert_url_def)

lemma insert_link_frame [simp]:
  "meeting_agenda_content (insert_link db l) = meeting_agenda_content db"
  "meeting_agenda_content_search (insert_link db l) = meeting_agenda_content_search db"
  "meetings (insert_link db l) = meetings db"
  "meeting_versions (insert_link db l) = meeting_versions db"
  "external_content_urls (insert_link db l) = external_content_urls db"
  "external_content (insert_link db l) = external_content db"
  "external_content_search (insert_link db l) = external_content_search db"
  by (simp_all add: insert_link_def)

lemma register_urls_frame [simp]:
  "meeting_agenda_content (register_urls t mid cid us db) = meeting_agenda_content db"
  "meeting_agenda_content_search (register_urls t mid cid us db) = meeting_agenda_content_search db"
  "meetings (register_urls t mid cid us db) = meetings db"
  "meeting_versions (register_urls t mid cid us db) = meeting_versions db"
  "external_content (register_urls t mid cid us db) = external_content db"
  "external_content_search (register_urls t mid cid us db) = external_content_search db"
  by (induction us arbitrary: db; simp)+

lemma max_observed_cong:
  "meeting_versions db = meeting_versions db' \<Longrightarrow> max_observed db i = max_observed db' i"
  by (simp add: max_observed_def)

lemma index_agenda_id:
  "list_ex (\<lambda>r. ac_id r = cid) (meeting_agenda_content db) \<Longrightarrow> index_agenda db cid txt html = db"
  by (simp add: index_agenda_def insert_agenda_content_def)

lemma index_agenda_has:
  "list_ex (\<lambda>r. ac_id r = cid) (meeting_agenda_content (index_agenda db cid txt html))"
  by (simp add: index_agenda_def insert_agenda_content_def insert_agenda_search_def list_ex_iff)

lemma insert_version_id:
  "list_ex (\<lambda>r. version_key r = version_key v) (meeting_versions db) \<Longrightarrow> insert_version db v = db"
  by (simp add: insert_version_def)

lemma insert_version_has:
  "list_ex (\<lambda>r. version_key r = version_key v) (meeting_versions (insert_version db v))"
  by (simp add: insert_version_def list_ex_iff)

lemma in_set_mapE: "r \<in> set (map f xs) \<Longrightarrow> (\<And>r0. r0 \<in> set xs \<Longrightarrow> r = f r0 \<Longrightarrow> P) \<Longrightarrow> P"
  by auto

lemma update_observed_meetings:
  "meetings (update_observed db obs i) = map (\<lambda>r. if m_id r = i
           then r\<lparr>m_updated := max_observed db (m_id r), m_last_observed := obs\<rparr>
           else r) (meetings db)"
  by (simp add: update_observed_def)

lemma list_ex_key: "list_ex (\<lambda>r. k r = i) xs \<longleftrightarrow> i \<in> set (map k xs)"
  by (auto simp: list_ex_iff)

lemma upsert_ids:
  "map m_id (meetings (upsert_meeting db i ty dt note au mu vu cid)) =
     (if i \<in> set (map m_id (meetings db)) then map m_id (meetings db) else map m_id (meetings db) @ [i])"
proof -
  have "map m_id (map (\<lambda>r. if m_id r = i
                 then r\<lparr>m_type := ty, m_date := dt, m_schedule_note := note, m_agenda_url := au,
                        m_minutes_url := mu, m_video_url := vu, m_agenda_content_id := cid\<rparr>
                 else r) (meetings db)) = map m_id (meetings db)"
    by (induction "meetings db") auto
  then show ?thesis
    by (simp add: upsert_meeting_def list_ex_key del: map_map)
qed

lemma upsert_has:
  "list_ex (\<lambda>r. m_id r = i) (meetings (upsert_meeting db i ty dt note au mu vu cid))"
  unfolding list_ex_key upsert_ids by simp

lemma upsert_sets:
  "r \<in> set (meetings (upsert_meeting db i ty dt note au mu vu cid)) \<Longrightarrow> meeting_set i ty dt note au mu vu cid r"
proof (cases "list_ex (\<lambda>r. m_id r = i) (meetings db)")
  case True
  assume "r \<in> set (meetings (upsert_meeting db i ty dt note au mu vu cid))"
  moreover from True have "meetings (upsert_meeting db i ty dt note au mu vu cid) =
     map (\<lambda>r. if m_id r = i
                 then r\<lparr>m_type := ty, m_date := dt, m_schedule_note := note, m_agenda_url := au,
                        m_minutes_url := mu, m_video_url := vu, m_agenda_content_id := cid\<rparr>
                 else r) (meetings db)"
    by (simp add: upsert_meeting_def)
  ultimately obtain r0 where "r0 \<in> set (meetings db)"
    and r: "r = (if m_id r0 = i
                 then r0\<lparr>m_type := ty, m_date := dt, m_schedule_note := note, m_agenda_url := au,
                        m_minutes_url := mu, m_video_url := vu, m_agenda_content_id := cid\<rparr>
                 else r0)"
    by (elim in_set_mapE[rotated]) (simp only:)
  show ?thesis
  proof (cases "m_id r0 = i")
    case True
    with r show ?thesis by (simp add: meeting_set_def)
  next
    case False
    with r show ?thesis by (simp add: meeting_set_def)
  qed
next
  case False
  assume "r \<in> set (meetings (upsert_meeting db i ty dt note au mu vu cid))"
  moreover from False have "meetings (upsert_meeting db i ty dt note au mu vu cid) = meetings db @
      [\<lparr>m_id = i, m_type = ty, m_date = dt, m_schedule_note = note,
               m_last_observed = None, m_updated = None, m_agenda_url = au,
               m_minutes_url = mu, m_video_url = vu, m_agenda_content_id = cid\<rparr>]"
    by (simp add: upsert_meeting_def)
  ultimately have "r \<in> set (meetings db) \<or> r = \<lparr>m_id = i, m_type = ty, m_date = dt, m_schedule_note = note,
               m_last_observed = None, m_updated = None, m_agenda_url = au,
               m_minutes_url = mu, m_video_url = vu, m_agenda_content_id = cid\<rparr>"
    by (simp only: set_append set_simps Un_iff insert_iff empty_iff) blast
  then show ?thesis
  proof
    assume "r \<in> set (meetings db)"
    with False have "m_id r \<noteq> i" by (auto simp: list_ex_iff)
    then show ?thesis by (simp add: meeting_set_def)
  next
    assume "r = \<lparr>m_id = i, m_type = ty, m_date = dt, m_schedule_note = note,
               m_last_observed = None, m_updated = None, m_agenda_url = au,
               m_minutes_url = mu, m_video_url = vu, m_agenda_content_id = cid\<rparr>"
    then show ?thesis by (simp add: meeting_set_def)
  qed
qed

lemma upsert_id:
  assumes "list_ex (\<lambda>r. m_id r = i) (meetings db)"
    and "\<forall>r \<in> set (meetings db). meeting_set i ty dt note au mu vu cid r"
  shows "upsert_meeting db i ty dt note au mu vu cid = db"
proof -
  have "map (\<lambda>r. if m_id r = i
                 then r\<lparr>m_type := ty, m_date := dt, m_schedule_note := note, m_agenda_url := au,
                        m_minutes_url := mu, m_video_url := vu, m_agenda_content_id := cid\<rparr>
                 else r) (meetings db) = meetings db"
    using assms(2) by (intro map_idI) (auto simp: meeting_set_def)
  with assms(1) show ?thesis by (simp add: upsert_meeting_def)
qed

lemma update_observed_rows:
  assumes "r \<in> set (meetings (update_observed db obs i))" "m_id r = i"
  shows "m_last_observed r = obs \<and> m_updated r = max_observed db i"
proof -
  from assms(1) obtain r0 where r: "r = (if m_id r0 = i
           then r0\<lparr>m_updated := max_observed db (m_id r0), m_last_observed := obs\<rparr> else r0)"
    unfolding update_observed_meetings by (rule in_set_mapE)
  show ?thesis
  proof (cases "m_id r0 = i")
    case True with r show ?thesis by simp
  next
    case False with r assms(2) show ?thesis by simp
  qed
qed

lemma update_observed_keeps:
  assumes "\<forall>r \<in> set (meetings db). meeting_set i ty dt note au mu vu cid r"
    and "r \<in> set (meetings (update_observed db obs j))"
  shows "meeting_set i ty dt note au mu vu cid r"
proof -
  from assms(2) obtain r0 where r0: "r0 \<in> set (meetings db)" and r: "r = (if m_id r0 = j
           then r0\<lparr>m_updated := max_observed db (m_id r0), m_last_observed := obs\<rparr> else r0)"
    unfolding update_observed_meetings by (rule in_set_mapE)
  from assms(1) r0 have "meeting_set i ty dt note au mu vu cid r0" by blast
  with r show ?thesis by (cases "m_id r0 = j") (simp_all add: meeting_set_def)
qed

lemma update_observed_ids:
  "map m_id (meetings (update_observed db obs j)) = map m_id (meetings db)"
proof -
  have "map m_id (map (\<lambda>r. if m_id r = j
           then r\<lparr>m_updated := max_observed db (m_id r), m_last_observed := obs\<rparr>
           else r) (meetings db)) = map m_id (meetings db)"
    by (induction "meetings db") auto
  then show ?thesis by (simp add: update_observed_def del: map_map)
qed

lemma update_observed_has:
  "list_ex (\<lambda>r. m_id r = i) (meetings (update_observed db obs j)) = list_ex (\<lambda>r. m_id r = i) (meetings db)"
  unfolding list_ex_key update_observed_ids ..

lemma update_observed_id:
  assumes "\<forall>r \<in> set (meetings db). m_id r = i \<longrightarrow> m_last_observed r = obs \<and> m_updated r = max_observed db i"
  shows "update_observed db obs i = db"
proof -
  have "map (\<lambda>r. if m_id r = i
           then r\<lparr>m_updated := max_observed db (m_id r), m_last_observed := obs\<rparr>
           else r) (meetings db) = meetings db"
    using assms by (intro map_idI) auto
  then show ?thesis by (simp add: update_observed_def)
qed

lemma insert_url_mono:
  "list_ex (\<lambda>r. u_url r = u) (external_content_urls db) \<Longrightarrow>
   list_ex (\<lambda>r. u_url r = u) (external_content_urls (insert_url db u' a))"
  by (auto simp: insert_url_def list_ex_iff)

lemma insert_link_mono:
  "list_ex (\<lambda>r. r = l) (meeting_external_content_urls db) \<Longrightarrow>
   list_ex (\<lambda>r. r = l) (meeting_external_content_urls (insert_link db l'))"
  by (auto simp: insert_link_def list_ex_iff)

lemma register_urls_mono_url:
  "list_ex (\<lambda>r. u_url r = u) (external_content_urls db) \<Longrightarrow>
   list_ex (\<lambda>r. u_url r = u) (external_content_urls (register_urls t mid cid us db))"
proof (induction us arbitrary: db)
  case Nil then show ?case by simp
next
  case (Cons a us)
  have "list_ex (\<lambda>r. u_url r = u) (external_content_urls (insert_link (insert_url db a (timeValue_Value t))
          \<lparr>l_meeting_id = mid, l_agenda_content_id = cid, l_external_content_url = a\<rparr>))"
    using Cons.prems by (simp add: insert_url_mono)
  then show ?case by (simp add: Cons.IH)
qed

lemma register_urls_mono_link:
  "list_ex (\<lambda>r. r = l) (meeting_external_content_urls db) \<Longrightarrow>
   list_ex (\<lambda>r. r = l) (meeting_external_content_urls (register_urls t mid cid us db))"
proof (induction us arbitrary: db)
  case Nil then show ?case by simp
next
  case (Cons a us)
  have "list_ex (\<lambda>r. r = l) (meeting_external_content_urls (insert_link (insert_url db a (timeValue_Value t))
          \<lparr>l_meeting_id = mid, l_agenda_content_id = cid, l_external_content_url = a\<rparr>))"
    using Cons.prems by (simp add: insert_link_mono)
  then show ?case by (simp add: Cons.IH)
qed

lemma register_urls_has:
  "u \<in> set us \<Longrightarrow>
   list_ex (\<lambda>r. u_url r = u) (external_content_urls (register_urls t mid cid us db)) \<and>
   list_ex (\<lambda>r. r = \<lparr>l_meeting_id = mid, l_agenda_content_id = cid, l_external_content_url = u\<rparr>)
     (meeting_external_content_urls (register_urls t mid cid us db))"
proof (induction us arbitrary: db)
  case Nil then show ?case by simp
next
  case (Cons a us)
  show ?case
  proof (cases "u = a")
    case True
    have "list_ex (\<lambda>r. u_url r = a) (external_content_urls (insert_link (insert_url db a (timeValue_Value t))
             \<lparr>l_meeting_id = mid, l_agenda_content_id = cid, l_external_content_url = a\<rparr>))"
      by (auto simp: insert_url_def list_ex_iff)
    moreover have "list_ex (\<lambda>r. r = \<lparr>l_meeting_id = mid, l_agenda_content_id = cid, l_external_content_url = a\<rparr>)
        (meeting_external_content_urls (insert_link (insert_url db a (timeValue_Value t))
             \<lparr>l_meeting_id = mid, l_agenda_content_id = cid, l_external_content_url = a\<rparr>))"
      by (auto simp: insert_link_def list_ex_iff)
    ultimately show ?thesis using True
      by (simp add: register_urls_mono_url register_urls_mono_link)
  next
    case False
    with Cons show ?thesis by simp
  qed
qed

lemma register_urls_id:
  "\<forall>u \<in> set us. list_ex (\<lambda>r. u_url r = u) (external_content_urls db) \<and>
     list_ex (\<lambda>r. r = \<lparr>l_meeting_id = mid, l_agenda_content_id = cid, l_external_content_url = u\<rparr>)
       (meeting_external_content_urls db) \<Longrightarrow>
   register_urls t mid cid us db = db"
proof (induction us arbitrary: db)
  case Nil then show ?case by simp
next
  case (Cons a us)
  from Cons.prems have "insert_url db a (timeValue_Value t) = db"
    by (simp add: insert_url_def)
  moreover from Cons.prems have "insert_link db \<lparr>l_meeting_id = mid, l_agenda_content_id = cid, l_external_content_url = a\<rparr> = db"
    by (simp add: insert_link_def)
  moreover from Cons.prems have "register_urls t mid cid us db = db"
    by (intro Cons.IH) simp
  ultimately show ?case by simp
qed

lemma committed_idem:
  "committed sum224 (committed sum224 db m agenda t) m agenda t = committed sum224 db m agenda t"
proof -
  define cid where "cid = sum224 (ContentHTML agenda @ [CHR 0x0A])"
  define A where "A = index_agenda db cid (ContentText agenda) (ContentHTML agenda)"
  define B where "B = upsert_meeting A (ID m) (Type m) (Format_date (Date (Event m))) (Note (Event m))
                (Meeting_URL m ''agenda'') (Meeting_URL m ''minutes'') (Meeting_URL m ''video'') cid"
  define C where "C = insert_version B (version_of sum224 m agenda t)"
  define E where "E = update_observed C (timeValue_Value t) (ID m)"
  define D where "D = register_urls t (ID m) cid (ContentURLs agenda) E"
  have D: "committed sum224 db m agenda t = D"
    by (simp add: committed_def D_def E_def C_def B_def A_def cid_def)
  have 1: "index_agenda D cid (ContentText agenda) (ContentHTML agenda) = D"
    by (rule index_agenda_id) (simp add: D_def E_def C_def B_def A_def index_agenda_has)
  have mD: "meetings D = meetings E" by (simp add: D_def)
  have vD: "meeting_versions D = meeting_versions C" by (simp add: D_def E_def)
  have 2: "upsert_meeting D (ID m) (Type m) (Format_date (Date (Event m))) (Note (Event m))
                (Meeting_URL m ''agenda'') (Meeting_URL m ''minutes'') (Meeting_URL m ''video'') cid = D"
  proof (rule upsert_id)
    show "list_ex (\<lambda>r. m_id r = ID m) (meetings D)"
      by (simp add: mD E_def update_observed_has C_def B_def upsert_has)
    show "\<forall>r\<in>set (meetings D). meeting_set (ID m) (Type m) (Format_date (Date (Event m))) (Note (Event m))
                (Meeting_URL m ''agenda'') (Meeting_URL m ''minutes'') (Meeting_URL m ''video'') cid r"
    proof
      fix r assume "r \<in> set (meetings D)"
      then have r: "r \<in> set (meetings (update_observed C (timeValue_Value t) (ID m)))"
        by (simp only: mD E_def)
      have "\<forall>r\<in>set (meetings C). meeting_set (ID m) (Type m) (Format_date (Date (Event m))) (Note (Event m))
                (Meeting_URL m ''agenda'') (Meeting_URL m ''minutes'') (Meeting_URL m ''video'') cid r"
      proof
        fix r' assume "r' \<in> set (meetings C)"
        then have "r' \<in> set (meetings B)" by (simp add: C_def)
        then show "meeting_set (ID m) (Type m) (Format_date (Date (Event m))) (Note (Event m))
                (Meeting_URL m ''agenda'') (Meeting_URL m ''minutes'') (Meeting_URL m ''video'') cid r'"
          unfolding B_def by (rule upsert_sets)
      qed
      then show "meeting_set (ID m) (Type m) (Format_date (Date (Event m))) (Note (Event m))
                (Meeting_URL m ''agenda'') (Meeting_URL m ''minutes'') (Meeting_URL m ''video'') cid r"
        using r by (rule update_observed_keeps)
    qed
  qed
  have 3: "insert_version D (version_of sum224 m agenda t) = D"
    by (rule insert_version_id) (simp add: vD C_def insert_version_has)
  have 4: "update_observed D (timeValue_Value t) (ID m) = D"
  proof (rule update_observed_id, intro ballI impI)
    fix r assume "r \<in> set (meetings D)" "m_id r = ID m"
    then have "m_last_observed r = timeValue_Value t \<and> m_updated r = max_observed C (ID m)"
      unfolding mD E_def by (rule update_observed_rows)
    moreover have "max_observed D (ID m) = max_observed C (ID m)"
      by (rule max_observed_cong) (rule vD)
    ultimately show "m_last_observed r = timeValue_Value t \<and> m_updated r = max_observed D (ID m)"
      by simp
  qed
  have 5: "register_urls t (ID m) cid (ContentURLs agenda) D = D"
  proof (rule register_urls_id, intro ballI)
    fix u assume "u \<in> set (ContentURLs agenda)"
    then show "list_ex (\<lambda>r. u_url r = u) (external_content_urls D) \<and>
       list_ex (\<lambda>r. r = \<lparr>l_meeting_id = ID m, l_agenda_content_id = cid, l_external_content_url = u\<rparr>)
        (meeting_external_content_urls D)"
      unfolding D_def by (rule register_urls_has)
  qed
  have "committed sum224 D m agenda t =
    register_urls t (ID m) cid (ContentURLs agenda)
      (update_observed
         (insert_version
            (upsert_meeting (index_agenda D cid (ContentText agenda) (ContentHTML agenda))
               (ID m) (Type m) (Format_date (Date (Event m))) (Note (Event m))
               (Meeting_URL m ''agenda'') (Meeting_URL m ''minutes'') (Meeting_URL m ''video'') cid)
            (version_of sum224 m agenda t))
         (timeValue_Value t) (ID m))"
    by (simp only: committed_def cid_def)
  also have "\<dots> = D"
    by (simp only: 1 2 3 4 5)
  finally show ?thesis
    by (simp only: D)
qed

lemma sql_max_Max:
  "sql_max vs = (if {s. Some s \<in> set vs} = {} then None else Some (Max {s. Some s \<in> set vs}))"
proof -
  have set: "set (List.map_filter id vs) = {s. Some s \<in> set vs}"
    by (induction vs) (auto simp: List.map_filter_simps split: option.splits)
  show ?thesis
  proof (cases "List.map_filter id vs")
    case Nil
    with set have "{s. Some s \<in> set vs} = {}" by simp
    with Nil show ?thesis by (simp add: sql_max_def)
  next
    case (Cons t ts)
    with set have eq: "{s. Some s \<in> set vs} = set (t # ts)" by simp
    have "fold max ts t = Max (set (t # ts))" by (simp only: Max.set_eq_fold)
    with Cons eq show ?thesis by (simp add: sql_max_def)
  qed
qed

lemma max_observed_Max:
  "max_observed db i =
     (if {s. \<exists>v \<in> set (meeting_versions db). mv_meeting_id v = i \<and> mv_observed v = Some s} = {} then None
      else Some (Max {s. \<exists>v \<in> set (meeting_versions db). mv_meeting_id v = i \<and> mv_observed v = Some s}))"
proof -
  have "{s. Some s \<in> set (map mv_observed (filter (\<lambda>v. mv_meeting_id v = i) (meeting_versions db)))}
      = {s. \<exists>v \<in> set (meeting_versions db). mv_meeting_id v = i \<and> mv_observed v = Some s}"
    by force
  then show ?thesis by (simp only: max_observed_def sql_max_Max)
qed

lemma committed_meeting_rows:
  assumes "r \<in> set (meetings (committed sum224 db m agenda t))" "m_id r = ID m"
  shows "m_last_observed r = timeValue_Value t \<and>
         m_updated r = max_observed (committed sum224 db m agenda t) (ID m)"
proof -
  let ?C = "insert_version
             (upsert_meeting
                (index_agenda db (sum224 (ContentHTML agenda @ [CHR 0x0A])) (ContentText agenda)
                   (ContentHTML agenda))
                (ID m) (Type m) (Format_date (Date (Event m))) (Note (Event m))
                (Meeting_URL m ''agenda'') (Meeting_URL m ''minutes'') (Meeting_URL m ''video'')
                (sum224 (ContentHTML agenda @ [CHR 0x0A])))
             (version_of sum224 m agenda t)"
  from assms(1) have "r \<in> set (meetings (update_observed ?C (timeValue_Value t) (ID m)))"
    by (simp add: committed_def)
  then have "m_last_observed r = timeValue_Value t \<and> m_updated r = max_observed ?C (ID m)"
    using assms(2) by (rule update_observed_rows)
  moreover have "max_observed (committed sum224 db m agenda t) (ID m) = max_observed ?C (ID m)"
    by (rule max_observed_cong) (simp add: committed_def)
  ultimately show ?thesis by simp
qed

lemma committed_has_meeting:
  "list_ex (\<lambda>r. m_id r = ID m) (meetings (committed sum224 db m agenda t))"
  by (simp add: committed_def update_observed_has upsert_has)

lemma timeValue_Scan_Value:
  "timeValue_Scan (timeValue_Value t) = t - t mod Millisecond"
  by (simp add: timeValue_Scan_def timeValue_Value_def IsZero_def)

text \<open>
  Claim C9, as amended. After every successful \<open>saveMeeting\<close> with observation time
  \<open>observedAt\<close> the meeting has a row, and in every row of the meeting \<open>last_observed\<close>
  holds \<open>observedAt\<close> cut down to whole milliseconds, the precision of the stored text
  (NULL for the zero Time): read back, it is \<open>observedAt\<close> minus its part below a
  millisecond, so it is \<open>observedAt\<close> itself exactly when that is a whole number of
  milliseconds. \<open>updated\<close> holds the largest \<open>observed\<close> among the stored versions of the
  meeting (NULL when none has one). The store before the call is arbitrary, so this
  covers the call whose version tuple is a duplicate and inserts no version row.
\<close>

theorem saveMeeting_last_observed:
  assumes "saveMeeting sum224 flt db m agenda observedAt = Inr db1"
  shows "(\<exists>r \<in> set (meetings db1). m_id r = ID m) \<and>
         (\<forall>r \<in> set (meetings db1). m_id r = ID m \<longrightarrow>
            m_last_observed r = timeValue_Value observedAt \<and>
            m_last_observed r =
              (if observedAt = 0 then None else Some (observedAt - observedAt mod 1000000)) \<and>
            timeValue_Scan (m_last_observed r) = observedAt - observedAt mod 1000000 \<and>
            (timeValue_Scan (m_last_observed r) = observedAt \<longleftrightarrow> observedAt mod 1000000 = 0) \<and>
            m_updated r =
              (if {s. \<exists>v \<in> set (meeting_versions db1). mv_meeting_id v = ID m \<and> mv_observed v = Some s} = {}
               then None
               else Some (Max {s. \<exists>v \<in> set (meeting_versions db1).
                                    mv_meeting_id v = ID m \<and> mv_observed v = Some s})))"
proof -
  from assms have db1: "db1 = committed sum224 db m agenda observedAt"
    by (simp add: saveMeeting_Inr)
  have ex: "\<exists>r \<in> set (meetings db1). m_id r = ID m"
    using committed_has_meeting[of m sum224 db agenda observedAt]
    by (simp only: db1 list_ex_iff)
  have rows: "\<forall>r \<in> set (meetings db1). m_id r = ID m \<longrightarrow>
            m_last_observed r = timeValue_Value observedAt \<and> m_updated r = max_observed db1 (ID m)"
    unfolding db1 by (intro ballI impI committed_meeting_rows)
  have v1: "timeValue_Value observedAt =
      (if observedAt = 0 then None else Some (observedAt - observedAt mod 1000000))"
    by (simp add: timeValue_Value_def IsZero_def Millisecond_def)
  have v2: "timeValue_Scan (timeValue_Value observedAt) = observedAt - observedAt mod 1000000"
    by (simp add: timeValue_Scan_Value Millisecond_def)
  have v3: "timeValue_Scan (timeValue_Value observedAt) = observedAt \<longleftrightarrow> observedAt mod 1000000 = 0"
    unfolding v2 by simp
  show ?thesis
  proof (intro conjI ballI impI)
    show "\<exists>r \<in> set (meetings db1). m_id r = ID m" by (rule ex)
  next
    fix r assume r: "r \<in> set (meetings db1)" "m_id r = ID m"
    with rows have lo: "m_last_observed r = timeValue_Value observedAt"
      and up: "m_updated r = max_observed db1 (ID m)" by blast+
    show "m_last_observed r = timeValue_Value observedAt" by (rule lo)
    show "m_last_observed r =
              (if observedAt = 0 then None else Some (observedAt - observedAt mod 1000000))"
      using lo v1 by simp
    show "timeValue_Scan (m_last_observed r) = observedAt - observedAt mod 1000000"
      using lo v2 by simp
    show "(timeValue_Scan (m_last_observed r) = observedAt) = (observedAt mod 1000000 = 0)"
      using lo v3 by simp
    show "m_updated r =
              (if {s. \<exists>v \<in> set (meeting_versions db1). mv_meeting_id v = ID m \<and> mv_observed v = Some s} = {}
               then None
               else Some (Max {s. \<exists>v \<in> set (meeting_versions db1).
                                    mv_meeting_id v = ID m \<and> mv_observed v = Some s}))"
      using up by (simp only: max_observed_Max[symmetric])
  qed
qed

lemma count_distinct_key:
  "distinct (map k xs) \<Longrightarrow> x \<in> set xs \<Longrightarrow> length (filter (\<lambda>y. k y = k x) xs) = 1"
proof (induction xs)
  case Nil then show ?case by simp
next
  case (Cons a xs)
  show ?case
  proof (cases "k a = k x")
    case True
    from Cons.prems have "k a \<notin> k ` set xs" by simp
    with True have "\<forall>y \<in> set xs. k y \<noteq> k x" by (metis imageI)
    then have "filter (\<lambda>y. k y = k x) xs = []" by (simp add: filter_empty_conv)
    with True show ?thesis by simp
  next
    case False
    with Cons show ?thesis by auto
  qed
qed

lemma next_rowid_fresh: "i \<in> set ids \<Longrightarrow> i < next_rowid ids"
proof -
  have "\<And>a. i \<in> set ids \<Longrightarrow> i \<le> fold max ids a \<and> a \<le> fold max ids a"
  proof (induction ids)
    case Nil then show ?case by simp
  next
    case (Cons x xs)
    have le: "\<And>a. a \<le> fold max xs a"
    proof (induction xs)
      case Nil show ?case by simp
    next
      case (Cons y ys)
      have "a \<le> max y a" by simp
      also have "\<dots> \<le> fold max ys (max y a)" by (rule Cons.IH)
      finally show ?case by simp
    qed
    show ?case
    proof (cases "i = x")
      case True
      have "max x a \<le> fold max xs (max x a)" by (rule le)
      with True show ?thesis by simp
    next
      case False
      with Cons.prems have "i \<in> set xs" by simp
      then have "i \<le> fold max xs (max x a) \<and> max x a \<le> fold max xs (max x a)" by (rule Cons.IH)
      then show ?thesis by simp
    qed
  qed
  then show "i \<in> set ids \<Longrightarrow> i < next_rowid ids"
    by (simp add: next_rowid_def)
qed

lemma agenda_ok_initDB: "agenda_ok initDB"
  by (simp add: agenda_ok_def initDB_def)

lemma index_agenda_new:
  assumes "\<not> list_ex (\<lambda>r. ac_id r = cid) (meeting_agenda_content db)"
  shows "meeting_agenda_content (index_agenda db cid txt html) = meeting_agenda_content db @
           [\<lparr>ac_rowid = next_rowid (map ac_rowid (meeting_agenda_content db)),
             ac_id = cid, ac_text = txt, ac_html = html\<rparr>]"
    and "meeting_agenda_content_search (index_agenda db cid txt html) =
           meeting_agenda_content_search db @
           [\<lparr>as_rowid = Some (next_rowid (map ac_rowid (meeting_agenda_content db))), as_text = txt\<rparr>]"
proof -
  from assms have none: "filter (\<lambda>r. ac_id r = cid) (meeting_agenda_content db) = []"
    by (simp add: list_ex_iff filter_empty_conv)
  from assms show "meeting_agenda_content (index_agenda db cid txt html) = meeting_agenda_content db @
           [\<lparr>ac_rowid = next_rowid (map ac_rowid (meeting_agenda_content db)),
             ac_id = cid, ac_text = txt, ac_html = html\<rparr>]"
    by (simp add: index_agenda_def insert_agenda_content_def insert_agenda_search_def)
  from assms none show "meeting_agenda_content_search (index_agenda db cid txt html) =
           meeting_agenda_content_search db @
           [\<lparr>as_rowid = Some (next_rowid (map ac_rowid (meeting_agenda_content db))), as_text = txt\<rparr>]"
    by (simp add: index_agenda_def insert_agenda_content_def insert_agenda_search_def agenda_rowid_def)
qed

lemma agenda_ok_index:
  assumes "agenda_ok db"
  shows "agenda_ok (index_agenda db cid txt html)"
proof (cases "list_ex (\<lambda>r. ac_id r = cid) (meeting_agenda_content db)")
  case True
  with assms show ?thesis by (simp add: index_agenda_id)
next
  case False
  let ?n = "next_rowid (map ac_rowid (meeting_agenda_content db))"
  have fresh: "?n \<notin> set (map ac_rowid (meeting_agenda_content db))"
    using next_rowid_fresh[of ?n "map ac_rowid (meeting_agenda_content db)"] by blast
  from False have cid: "cid \<notin> set (map ac_id (meeting_agenda_content db))"
    by (simp add: list_ex_key)
  from assms have eq: "set (map as_rowid (meeting_agenda_content_search db)) =
        set (map (\<lambda>r. Some (ac_rowid r)) (meeting_agenda_content db))"
    by (simp add: agenda_ok_def)
  have "Some ?n \<notin> set (map (\<lambda>r. Some (ac_rowid r)) (meeting_agenda_content db))"
    using fresh by auto
  with eq have sfresh: "Some ?n \<notin> set (map as_rowid (meeting_agenda_content_search db))"
    by simp
  show ?thesis
    unfolding agenda_ok_def index_agenda_new[OF False] index_agenda_frame
    using assms cid fresh sfresh eq
    by (simp add: agenda_ok_def)
qed

lemma agenda_ok_cong:
  assumes "meeting_agenda_content db' = meeting_agenda_content db"
    "meeting_agenda_content_search db' = meeting_agenda_content_search db"
    "meeting_versions db' = meeting_versions db"
  shows "agenda_ok db' = agenda_ok db"
  by (simp add: agenda_ok_def assms)

lemma agenda_ok_version:
  assumes "agenda_ok db"
  shows "agenda_ok (insert_version db v)"
proof (cases "list_ex (\<lambda>r. version_key r = version_key v) (meeting_versions db)")
  case True
  with assms show ?thesis by (simp add: insert_version_id)
next
  case False
  then have "version_key v \<notin> set (map version_key (meeting_versions db))"
    by (simp add: list_ex_key)
  moreover from False have "meeting_versions (insert_version db v) = meeting_versions db @ [v]"
    by (simp add: insert_version_def)
  ultimately show ?thesis using assms
    by (simp add: agenda_ok_def)
qed

lemma agenda_ok_committed:
  assumes "agenda_ok db"
  shows "agenda_ok (committed sum224 db m agenda t)"
proof -
  let ?A = "index_agenda db (sum224 (ContentHTML agenda @ [CHR 0x0A])) (ContentText agenda)
                   (ContentHTML agenda)"
  let ?B = "upsert_meeting ?A (ID m) (Type m) (Format_date (Date (Event m))) (Note (Event m))
                (Meeting_URL m ''agenda'') (Meeting_URL m ''minutes'') (Meeting_URL m ''video'')
                (sum224 (ContentHTML agenda @ [CHR 0x0A]))"
  let ?C = "insert_version ?B (version_of sum224 m agenda t)"
  have "agenda_ok ?A" using assms by (rule agenda_ok_index)
  then have "agenda_ok ?B" by (subst agenda_ok_cong[of ?B ?A]) simp_all
  then have "agenda_ok ?C" by (rule agenda_ok_version)
  moreover have "agenda_ok (committed sum224 db m agenda t) = agenda_ok ?C"
    by (rule agenda_ok_cong) (simp_all add: committed_def)
  ultimately show ?thesis by simp
qed

lemma committed_has_content:
  "list_ex (\<lambda>r. ac_id r = sum224 (ContentHTML agenda @ [CHR 0x0A]))
     (meeting_agenda_content (committed sum224 db m agenda t))"
  by (simp add: committed_def index_agenda_has)

lemma committed_has_version:
  "list_ex (\<lambda>r. version_key r = version_key (version_of sum224 m agenda t))
     (meeting_versions (committed sum224 db m agenda t))"
  by (simp add: committed_def insert_version_has)

lemma count_key:
  assumes "distinct (map k xs)" "list_ex (\<lambda>y. k y = c) xs"
  shows "length (filter (\<lambda>y. k y = c) xs) = 1"
proof -
  from assms(2) obtain x where "x \<in> set xs" "k x = c" by (auto simp: list_ex_iff)
  with count_distinct_key[OF assms(1), of x] show ?thesis by simp
qed

lemma agenda_ok_counts:
  assumes ok: "agenda_ok db"
    and c: "list_ex (\<lambda>r. ac_id r = cid) (meeting_agenda_content db)"
  shows "length (filter (\<lambda>r. ac_id r = cid) (meeting_agenda_content db)) = 1"
    and "length (filter (\<lambda>s. as_rowid s = agenda_rowid db cid) (meeting_agenda_content_search db)) = 1"
proof -
  from ok have d: "distinct (map ac_id (meeting_agenda_content db))" by (simp add: agenda_ok_def)
  from d c show one: "length (filter (\<lambda>r. ac_id r = cid) (meeting_agenda_content db)) = 1"
    by (rule count_key)
  then obtain r where r: "filter (\<lambda>r. ac_id r = cid) (meeting_agenda_content db) = [r]"
    by (auto simp: length_Suc_conv)
  then have rid: "agenda_rowid db cid = Some (ac_rowid r)"
    by (simp add: agenda_rowid_def)
  from r have "r \<in> set (filter (\<lambda>r. ac_id r = cid) (meeting_agenda_content db))" by simp
  then have "r \<in> set (meeting_agenda_content db)" by simp
  then have "Some (ac_rowid r) \<in> set (map (\<lambda>r. Some (ac_rowid r)) (meeting_agenda_content db))"
    by force
  with ok have "Some (ac_rowid r) \<in> set (map as_rowid (meeting_agenda_content_search db))"
    by (simp add: agenda_ok_def)
  then have "list_ex (\<lambda>s. as_rowid s = Some (ac_rowid r)) (meeting_agenda_content_search db)"
    by (simp add: list_ex_key)
  moreover from ok have "distinct (map as_rowid (meeting_agenda_content_search db))"
    by (simp add: agenda_ok_def)
  ultimately have "length (filter (\<lambda>s. as_rowid s = Some (ac_rowid r)) (meeting_agenda_content_search db)) = 1"
    by (intro count_key)
  with rid show "length (filter (\<lambda>s. as_rowid s = agenda_rowid db cid) (meeting_agenda_content_search db)) = 1"
    by simp
qed

text \<open>
  Claim C3. Let the store satisfy the constraints of its schema and let \<open>saveMeeting\<close>
  succeed. Then a second call with the same meeting, agenda and observation time succeeds
  when the database reports no failure, and returns the same store; whatever the
  database does, a second call that succeeds changes nothing. The store then holds
  exactly one version row with that tuple, exactly one agenda content row with that
  content identifier, and exactly one index row for that content row.
\<close>

theorem saveMeeting_idempotent:
  assumes "agenda_ok db"
    and "saveMeeting sum224 flt db m agenda observedAt = Inr db1"
  shows "saveMeeting sum224 noFaults db1 m agenda observedAt = Inr db1 \<and>
         (\<forall>flt' db2. saveMeeting sum224 flt' db1 m agenda observedAt = Inr db2 \<longrightarrow> db2 = db1) \<and>
         length (filter (\<lambda>v. version_key v = version_key (version_of sum224 m agenda observedAt))
                   (meeting_versions db1)) = 1 \<and>
         length (filter (\<lambda>r. ac_id r = sum224 (ContentHTML agenda @ [CHR 0x0A]))
                   (meeting_agenda_content db1)) = 1 \<and>
         length (filter (\<lambda>s. as_rowid s = agenda_rowid db1 (sum224 (ContentHTML agenda @ [CHR 0x0A])))
                   (meeting_agenda_content_search db1)) = 1"
proof -
  from assms(2) have url: "Meeting_URL m ''agenda'' \<noteq> []"
    and db1: "db1 = committed sum224 db m agenda observedAt"
    by (simp_all add: saveMeeting_Inr)
  have idem: "committed sum224 db1 m agenda observedAt = db1"
    unfolding db1 by (rule committed_idem)
  have ok1: "agenda_ok db1"
    unfolding db1 using assms(1) by (rule agenda_ok_committed)
  have "saveMeeting sum224 noFaults db1 m agenda observedAt = Inr db1"
    using saveMeeting_noFaults[OF url, of sum224 db1 agenda observedAt] by (simp only: idem)
  moreover have "\<forall>flt' db2. saveMeeting sum224 flt' db1 m agenda observedAt = Inr db2 \<longrightarrow> db2 = db1"
    using idem by (auto dest: saveMeeting_Inr)
  moreover have "length (filter (\<lambda>v. version_key v = version_key (version_of sum224 m agenda observedAt))
                   (meeting_versions db1)) = 1"
  proof (rule count_key)
    show "distinct (map version_key (meeting_versions db1))"
      using ok1 by (simp add: agenda_ok_def)
    show "list_ex (\<lambda>y. version_key y = version_key (version_of sum224 m agenda observedAt))
            (meeting_versions db1)"
      unfolding db1 by (rule committed_has_version)
  qed
  moreover have has: "list_ex (\<lambda>r. ac_id r = sum224 (ContentHTML agenda @ [CHR 0x0A]))
     (meeting_agenda_content db1)"
    unfolding db1 by (rule committed_has_content)
  note agenda_ok_counts[OF ok1 has]
  ultimately show ?thesis by blast
qed

theorem saveMeeting_idempotent_witness:
  "agenda_ok initDB \<and>
   saveMeeting id noFaults initDB sample_meeting sample_agenda sample_t1 = Inr sample_store1 \<and>
   saveMeeting id noFaults sample_store1 sample_meeting sample_agenda sample_t1 = Inr sample_store1 \<and>
   length (filter (\<lambda>v. version_key v = version_key (version_of id sample_meeting sample_agenda sample_t1))
             (meeting_versions sample_store1)) = 1 \<and>
   length (filter (\<lambda>r. ac_id r = id (ContentHTML sample_agenda @ [CHR 0x0A]))
             (meeting_agenda_content sample_store1)) = 1 \<and>
   length (filter (\<lambda>s. as_rowid s = agenda_rowid sample_store1 (id (ContentHTML sample_agenda @ [CHR 0x0A])))
             (meeting_agenda_content_search sample_store1)) = 1"
proof -
  have h1: "agenda_ok initDB"
    by (simp add: agenda_ok_def initDB_def)
  have h2: "saveMeeting id noFaults initDB sample_meeting sample_agenda sample_t1 = Inr sample_store1"
    by code_simp
  note c = saveMeeting_idempotent[OF h1 h2]
  show ?thesis
    by (intro conjI h1 h2 c[THEN conjunct1] c[THEN conjunct2, THEN conjunct2, THEN conjunct1]
        c[THEN conjunct2, THEN conjunct2, THEN conjunct2, THEN conjunct1]
        c[THEN conjunct2, THEN conjunct2, THEN conjunct2, THEN conjunct2])
qed

theorem saveMeeting_last_observed_witness:
  "saveMeeting id noFaults sample_store1 sample_meeting sample_agenda sample_t2 = Inr sample_store2 \<and>
   meeting_versions sample_store2 = meeting_versions sample_store1 \<and>
   meetings sample_store2 \<noteq> [] \<and>
   m_id (hd (meetings sample_store2)) = ID sample_meeting \<and>
   m_last_observed (hd (meetings sample_store2)) = timeValue_Value sample_t2 \<and>
   m_last_observed (hd (meetings sample_store2)) =
     (if sample_t2 = 0 then None else Some (sample_t2 - sample_t2 mod 1000000)) \<and>
   timeValue_Scan (m_last_observed (hd (meetings sample_store2))) = sample_t2 - sample_t2 mod 1000000 \<and>
   m_updated (hd (meetings sample_store2)) =
     (if {s. \<exists>v \<in> set (meeting_versions sample_store2).
               mv_meeting_id v = ID sample_meeting \<and> mv_observed v = Some s} = {}
      then None
      else Some (Max {s. \<exists>v \<in> set (meeting_versions sample_store2).
                           mv_meeting_id v = ID sample_meeting \<and> mv_observed v = Some s})) \<and>
   m_last_observed (hd (meetings sample_store2)) = Some 63865936800000000000 \<and>
   m_updated (hd (meetings sample_store2)) = Some 63865933200000000000"
proof -
  have h: "saveMeeting id noFaults sample_store1 sample_meeting sample_agenda sample_t2 = Inr sample_store2"
    by code_simp
  have v: "meeting_versions sample_store2 = meeting_versions sample_store1"
    by (simp add: sample_store2_def)
  have ne: "meetings sample_store2 \<noteq> []"
    by (simp add: sample_store2_def)
  then have mem: "hd (meetings sample_store2) \<in> set (meetings sample_store2)"
    by (rule hd_in_set)
  have i: "m_id (hd (meetings sample_store2)) = ID sample_meeting"
    by (simp add: sample_store2_def sample_meeting_def)
  note c = saveMeeting_last_observed[OF h, THEN conjunct2, rule_format, OF mem i]
  have e1: "m_last_observed (hd (meetings sample_store2)) = Some 63865936800000000000"
    by (simp add: sample_store2_def)
  have e2: "m_updated (hd (meetings sample_store2)) = Some 63865933200000000000"
    by (simp add: sample_store2_def)
  show ?thesis
    by (intro conjI h v ne i c[THEN conjunct1] c[THEN conjunct2, THEN conjunct1]
        c[THEN conjunct2, THEN conjunct2, THEN conjunct1]
        c[THEN conjunct2, THEN conjunct2, THEN conjunct2, THEN conjunct2] e1 e2)
qed

text \<open>
  Claim C9 as stated fails in its first part. The sample meeting is saved at the second
  sample time, which is one nanosecond past a whole millisecond; the save succeeds, and
  the \<open>last_observed\<close> of the meeting, as stored and as read back, is the whole
  millisecond, not the observation time.
\<close>

theorem saveMeeting_last_observed_counterexample:
  "saveMeeting id noFaults sample_store1 sample_meeting sample_agenda 63865936800000000001
     = Inr sample_store2 \<and>
   map m_id (meetings sample_store2) = [ID sample_meeting] \<and>
   map m_last_observed (meetings sample_store2) = [Some 63865936800000000000] \<and>
   map (\<lambda>r. timeValue_Scan (m_last_observed r)) (meetings sample_store2) = [63865936800000000000] \<and>
   map (\<lambda>r. timeValue_Scan (m_last_observed r)) (meetings sample_store2) \<noteq> [63865936800000000001]"
proof -
  have a: "saveMeeting id noFaults sample_store1 sample_meeting sample_agenda 63865936800000000001
     = Inr sample_store2"
    by code_simp
  have b: "map m_id (meetings sample_store2) = [ID sample_meeting]"
    by (simp add: sample_store2_def sample_meeting_def)
  have c: "map m_last_observed (meetings sample_store2) = [Some 63865936800000000000]"
    by (simp add: sample_store2_def)
  have d: "map (\<lambda>r. timeValue_Scan (m_last_observed r)) (meetings sample_store2) = [63865936800000000000]"
    by (simp add: sample_store2_def timeValue_Scan_def)
  then have e: "map (\<lambda>r. timeValue_Scan (m_last_observed r)) (meetings sample_store2) \<noteq> [63865936800000000001]"
    by simp
  show ?thesis by (intro conjI a b c d e)
qed

lemma Sub_less_iff:
  assumes "minDuration < T" "T \<le> maxDuration"
  shows "Sub t u < T \<longleftrightarrow> t - u < T"
  using assms by (auto simp: Sub_def maxDuration_def minDuration_def)

lemma duration_values:
  "Minute = 60000000000" "Hour = 3600000000000" "Day = 86400000000000"
  "jitter = 7200000000000" "maxDuration = 9223372036854775807" "minDuration = - 9223372036854775808"
  by (simp_all add: Minute_def Hour_def Day_def jitter_def maxDuration_def minDuration_def)

lemma select_last_observed_None:
  "select_last_observed db i = None \<longleftrightarrow> (\<forall>r \<in> set (meetings db). m_id r \<noteq> i)"
proof -
  have "select_last_observed db i = None \<longleftrightarrow> filter (\<lambda>r. m_id r = i) (meetings db) = []"
    by (simp add: select_last_observed_def split: list.splits)
  then show ?thesis by (simp add: filter_empty_conv)
qed

lemma isMeetingFresh_eq:
  assumes "flt (SelectLastObserved (ID m)) = None" "0 \<le> rnd" "rnd < jitter"
  shows "isMeetingFresh flt db m now rnd =
     (case select_last_observed db (ID m) of
        None \<Rightarrow> Inr False
      | Some src \<Rightarrow> Inr (now - timeValue_Scan src <
          (if Date (Event m) < now - 7 * Day then 24 * Hour + (rnd - Hour) else 58 * Minute)))"
proof (cases "select_last_observed db (ID m)")
  case None
  with assms(1) show ?thesis by (simp add: isMeetingFresh_def failing_def)
next
  case (Some src)
  let ?T = "if Before (Date (Event m)) (AddDate_days (- 7) now)
            then 24 * Hour + (rnd - jitter div 2) else Hour - 2 * Minute"
  have T: "?T = (if Date (Event m) < now - 7 * Day then 24 * Hour + (rnd - Hour) else 58 * Minute)"
    by (simp add: Before_def AddDate_days_def duration_values)
  have "minDuration < ?T" "?T \<le> maxDuration"
    using assms(2,3) by (simp_all add: duration_values)
  then have "Sub now (timeValue_Scan src) < ?T \<longleftrightarrow> now - timeValue_Scan src < ?T"
    by (rule Sub_less_iff)
  with Some assms(1) show ?thesis
    by (simp add: isMeetingFresh_def failing_def Let_def T del: mult_minus_left)
qed

text \<open>
  Claim C1, as amended. Let the query not fail and let the random draw \<open>rnd\<close> lie in
  the range of \<open>rand.N(jitter)\<close>. When the meeting has no row, \<open>isMeetingFresh\<close> returns
  false. When it has one, the result is true exactly when now minus the recorded
  \<open>last_observed\<close> is strictly less than the threshold; the threshold is 58 minutes when
  the meeting's date is not earlier than seven days before now, which includes every
  date in the future, and 24 hours plus a jitter from minus one hour up to but excluding
  one hour when the date is earlier. A row whose \<open>last_observed\<close> is NULL counts as not
  recorded at any time later than the first 25 hours after the zero Time.
\<close>

theorem isMeetingFresh_threshold:
  assumes "flt (SelectLastObserved (ID m)) = None" "0 \<le> rnd" "rnd < jitter"
  shows "((\<forall>r \<in> set (meetings db). m_id r \<noteq> ID m) \<longrightarrow>
            isMeetingFresh flt db m now rnd = Inr False) \<and>
         (\<forall>src. select_last_observed db (ID m) = Some src \<longrightarrow>
            isMeetingFresh flt db m now rnd =
              Inr (now - timeValue_Scan src <
                     (if Date (Event m) < now - 7 * Day then 24 * Hour + (rnd - Hour)
                      else 58 * Minute))) \<and>
         (select_last_observed db (ID m) = Some None \<longrightarrow> 25 * Hour \<le> now \<longrightarrow>
            isMeetingFresh flt db m now rnd = Inr False) \<and>
         - Hour \<le> rnd - Hour \<and> rnd - Hour < Hour"
proof -
  note eq = isMeetingFresh_eq[where flt = flt and m = m and db = db and now = now, OF assms]
  have a: "(\<forall>r \<in> set (meetings db). m_id r \<noteq> ID m) \<longrightarrow> isMeetingFresh flt db m now rnd = Inr False"
    using eq by (simp add: select_last_observed_None[symmetric])
  have b: "\<forall>src. select_last_observed db (ID m) = Some src \<longrightarrow>
            isMeetingFresh flt db m now rnd =
              Inr (now - timeValue_Scan src <
                     (if Date (Event m) < now - 7 * Day then 24 * Hour + (rnd - Hour)
                      else 58 * Minute))"
    using eq by simp
  have c: "select_last_observed db (ID m) = Some None \<longrightarrow> 25 * Hour \<le> now \<longrightarrow>
            isMeetingFresh flt db m now rnd = Inr False"
    using eq assms(2,3) by (simp add: timeValue_Scan_def duration_values)
  have d: "- Hour \<le> rnd - Hour \<and> rnd - Hour < Hour"
    using assms(2,3) by (simp add: duration_values)
  from a b c d show ?thesis by blast
qed

theorem isMeetingFresh_threshold_witness:
  "noFaults (SelectLastObserved (ID sample_future_meeting)) = None \<and> (0::int) \<le> Hour \<and> Hour < jitter \<and>
   select_last_observed sample_store1 (ID sample_future_meeting) = Some (Some 63865933200000000000) \<and>
   \<not> Date (Event sample_future_meeting) < sample_t2 - 7 * Day \<and>
   isMeetingFresh noFaults sample_store1 sample_future_meeting sample_t2 Hour =
     Inr (sample_t2 - timeValue_Scan (Some 63865933200000000000) <
            (if Date (Event sample_future_meeting) < sample_t2 - 7 * Day then 24 * Hour + (Hour - Hour)
             else 58 * Minute)) \<and>
   isMeetingFresh noFaults sample_store1 sample_future_meeting sample_t2 Hour = Inr False"
proof -
  have h1: "noFaults (SelectLastObserved (ID sample_future_meeting)) = None"
    by (simp add: noFaults_def)
  have h2: "(0::int) \<le> Hour" and h3: "Hour < jitter"
    by (simp_all add: duration_values)
  have s: "select_last_observed sample_store1 (ID sample_future_meeting) = Some (Some 63865933200000000000)"
    by code_simp
  have d: "\<not> Date (Event sample_future_meeting) < sample_t2 - 7 * Day"
    by (simp add: sample_future_meeting_def sample_t2_def duration_values)
  note c = isMeetingFresh_threshold[where flt = noFaults and m = sample_future_meeting
      and db = sample_store1 and now = sample_t2, OF h1 h2 h3,
      THEN conjunct2, THEN conjunct1, rule_format, OF s]
  have e: "isMeetingFresh noFaults sample_store1 sample_future_meeting sample_t2 Hour = Inr False"
    unfolding c using d by (simp add: timeValue_Scan_def sample_t2_def duration_values)
  show ?thesis
    by (intro conjI h1 h2 h3 s d c e)
qed

text \<open>
  Claim C1 as stated fails for a meeting in the future. The sample meeting dated thirty
  days after now is not within seven days of now, the store records that it was last
  observed an hour and a nanosecond before now, which is less than any threshold of 24
  hours plus or minus an hour, and \<open>isMeetingFresh\<close> returns false: its threshold is 58
  minutes.
\<close>

theorem isMeetingFresh_future_counterexample:
  "select_last_observed sample_store1 (ID sample_future_meeting) = Some (Some 63865933200000000000) \<and>
   \<not> spec_within_7_days (Date (Event sample_future_meeting)) sample_t2 \<and>
   sample_t2 - 63865933200000000000 <
     spec_threshold (Date (Event sample_future_meeting)) sample_t2 (Hour - jitter div 2) \<and>
   sample_t2 - 63865933200000000000 < 23 * Hour \<and>
   isMeetingFresh noFaults sample_store1 sample_future_meeting sample_t2 Hour = Inr False"
proof -
  have s: "select_last_observed sample_store1 (ID sample_future_meeting) = Some (Some 63865933200000000000)"
    by code_simp
  have w: "\<not> spec_within_7_days (Date (Event sample_future_meeting)) sample_t2"
    by (simp add: spec_within_7_days_def sample_future_meeting_def sample_t2_def duration_values)
  have t: "sample_t2 - 63865933200000000000 <
     spec_threshold (Date (Event sample_future_meeting)) sample_t2 (Hour - jitter div 2)"
    using w by (simp add: spec_threshold_def sample_t2_def duration_values)
  have t2: "sample_t2 - 63865933200000000000 < 23 * Hour"
    by (simp add: sample_t2_def duration_values)
  have e: "isMeetingFresh noFaults sample_store1 sample_future_meeting sample_t2 Hour = Inr False"
    by code_simp
  show ?thesis by (intro conjI s w t t2 e)
qed

text \<open>
  Claim C5, as amended. Let the query not fail, let the store record \<open>lo\<close> as the
  meeting's \<open>last_observed\<close>, and let \<open>rnd\<close> lie in the range of \<open>rand.N(jitter)\<close>. For a
  meeting dated today, \<open>isMeetingFresh\<close> returns true when \<open>lo\<close> is now minus 57 minutes,
  and false when it is now minus 59 minutes or now minus 61 minutes: the threshold is
  58 minutes. For a meeting dated 30 days ago the result is true exactly when now minus
  \<open>lo\<close> is less than a threshold that lies between 23 and 25 hours.
\<close>

theorem isMeetingFresh_boundary:
  assumes "flt (SelectLastObserved (ID m)) = None"
    and "select_last_observed db (ID m) = Some (Some lo)"
    and "0 \<le> rnd" "rnd < jitter"
  shows "(Date (Event m) \<le> now \<and> now < Date (Event m) + Day \<longrightarrow>
            (lo = now - 57 * Minute \<longrightarrow> isMeetingFresh flt db m now rnd = Inr True) \<and>
            (lo = now - 59 * Minute \<longrightarrow> isMeetingFresh flt db m now rnd = Inr False) \<and>
            (lo = now - 61 * Minute \<longrightarrow> isMeetingFresh flt db m now rnd = Inr False)) \<and>
         (Date (Event m) + 30 * Day \<le> now \<and> now < Date (Event m) + 31 * Day \<longrightarrow>
            isMeetingFresh flt db m now rnd = Inr (now - lo < 24 * Hour + (rnd - Hour)) \<and>
            23 * Hour \<le> 24 * Hour + (rnd - Hour) \<and> 24 * Hour + (rnd - Hour) \<le> 25 * Hour)"
proof -
  have eq: "isMeetingFresh flt db m now rnd =
      Inr (now - lo < (if Date (Event m) < now - 7 * Day then 24 * Hour + (rnd - Hour)
                       else 58 * Minute))"
    using isMeetingFresh_eq[where flt = flt and m = m and db = db and now = now, OF assms(1,3,4)] assms(2)
    by (simp add: timeValue_Scan_def)
  show ?thesis
    unfolding eq using assms(3,4) by (simp add: duration_values)
qed

theorem isMeetingFresh_boundary_witness:
  "noFaults (SelectLastObserved (ID sample_meeting)) = None \<and>
   select_last_observed sample_store1 (ID sample_meeting) = Some (Some 63865933200000000000) \<and>
   noFaults (SelectLastObserved (ID sample_old_meeting)) = None \<and>
   select_last_observed sample_store1 (ID sample_old_meeting) = Some (Some 63865933200000000000) \<and>
   (0::int) \<le> 0 \<and> 0 < jitter \<and>
   Date (Event sample_meeting) \<le> 63865933200000000000 + 57 * Minute \<and>
   63865933200000000000 + 61 * Minute < Date (Event sample_meeting) + Day \<and>
   isMeetingFresh noFaults sample_store1 sample_meeting (63865933200000000000 + 57 * Minute) 0 = Inr True \<and>
   isMeetingFresh noFaults sample_store1 sample_meeting (63865933200000000000 + 59 * Minute) 0 = Inr False \<and>
   isMeetingFresh noFaults sample_store1 sample_meeting (63865933200000000000 + 61 * Minute) 0 = Inr False \<and>
   Date (Event sample_old_meeting) + 30 * Day \<le> 63865933200000000000 + 22 * Hour \<and>
   63865933200000000000 + 22 * Hour < Date (Event sample_old_meeting) + 31 * Day \<and>
   isMeetingFresh noFaults sample_store1 sample_old_meeting (63865933200000000000 + 22 * Hour) 0 = Inr True \<and>
   23 * Hour \<le> 24 * Hour + (0 - Hour) \<and> 24 * Hour + (0 - Hour) \<le> 25 * Hour"
proof -
  have f1: "noFaults (SelectLastObserved (ID sample_meeting)) = None"
    and f2: "noFaults (SelectLastObserved (ID sample_old_meeting)) = None"
    by (simp_all add: noFaults_def)
  have s1: "select_last_observed sample_store1 (ID sample_meeting) = Some (Some 63865933200000000000)"
    by code_simp
  have s2: "select_last_observed sample_store1 (ID sample_old_meeting) = Some (Some 63865933200000000000)"
    by code_simp
  have r1: "(0::int) \<le> 0" and r2: "0 < jitter"
    by (simp_all add: duration_values)
  have d1: "Date (Event sample_meeting) \<le> 63865933200000000000 + 57 * Minute"
    and d2: "63865933200000000000 + 61 * Minute < Date (Event sample_meeting) + Day"
    by (simp_all add: sample_meeting_def duration_values)
  have d3: "Date (Event sample_old_meeting) + 30 * Day \<le> 63865933200000000000 + 22 * Hour"
    and d4: "63865933200000000000 + 22 * Hour < Date (Event sample_old_meeting) + 31 * Day"
    by (simp_all add: sample_old_meeting_def duration_values)
  have a: "isMeetingFresh noFaults sample_store1 sample_meeting (63865933200000000000 + 57 * Minute) 0 = Inr True"
    using isMeetingFresh_boundary[where flt = noFaults and m = sample_meeting and db = sample_store1
        and now = "63865933200000000000 + 57 * Minute", OF f1 s1 r1 r2] d1 d2
    by (simp add: duration_values)
  have b: "isMeetingFresh noFaults sample_store1 sample_meeting (63865933200000000000 + 59 * Minute) 0 = Inr False"
    using isMeetingFresh_boundary[where flt = noFaults and m = sample_meeting and db = sample_store1
        and now = "63865933200000000000 + 59 * Minute", OF f1 s1 r1 r2] d1 d2
    by (simp add: duration_values)
  have c: "isMeetingFresh noFaults sample_store1 sample_meeting (63865933200000000000 + 61 * Minute) 0 = Inr False"
    using isMeetingFresh_boundary[where flt = noFaults and m = sample_meeting and db = sample_store1
        and now = "63865933200000000000 + 61 * Minute", OF f1 s1 r1 r2] d1 d2
    by (simp add: duration_values)
  have o: "isMeetingFresh noFaults sample_store1 sample_old_meeting (63865933200000000000 + 22 * Hour) 0 = Inr True
      \<and> 23 * Hour \<le> 24 * Hour + (0 - Hour) \<and> 24 * Hour + (0 - Hour) \<le> 25 * Hour"
    using isMeetingFresh_boundary[where flt = noFaults and m = sample_old_meeting and db = sample_store1
        and now = "63865933200000000000 + 22 * Hour", OF f2 s2 r1 r2] d3 d4
    by (simp add: duration_values)
  show ?thesis
    by (intro conjI f1 s1 f2 s2 r1 r2 d1 d2 a b c d3 d4 o[THEN conjunct1]
        o[THEN conjunct2, THEN conjunct1] o[THEN conjunct2, THEN conjunct2])
qed

text \<open>
  Claim C5 as stated fails at its first point. The sample meeting is dated today, the
  store records that it was last observed 59 minutes before now, and \<open>isMeetingFresh\<close>
  returns false, not true: 59 minutes is not less than the threshold of 58 minutes.
\<close>

theorem isMeetingFresh_59min_counterexample:
  "select_last_observed sample_store1 (ID sample_meeting) =
     Some (Some ((63865933200000000000 + 59 * Minute) - 59 * Minute)) \<and>
   Date (Event sample_meeting) \<le> 63865933200000000000 + 59 * Minute \<and>
   63865933200000000000 + 59 * Minute < Date (Event sample_meeting) + Day \<and>
   isMeetingFresh noFaults sample_store1 sample_meeting (63865933200000000000 + 59 * Minute) Hour \<noteq> Inr True \<and>
   isMeetingFresh noFaults sample_store1 sample_meeting (63865933200000000000 + 59 * Minute) Hour = Inr False"
proof -
  have s: "select_last_observed sample_store1 (ID sample_meeting) =
     Some (Some ((63865933200000000000 + 59 * Minute) - 59 * Minute))"
    by code_simp
  have d1: "Date (Event sample_meeting) \<le> 63865933200000000000 + 59 * Minute"
    and d2: "63865933200000000000 + 59 * Minute < Date (Event sample_meeting) + Day"
    by (simp_all add: sample_meeting_def duration_values)
  have e: "isMeetingFresh noFaults sample_store1 sample_meeting (63865933200000000000 + 59 * Minute) Hour = Inr False"
    by code_simp
  then have n: "isMeetingFresh noFaults sample_store1 sample_meeting (63865933200000000000 + 59 * Minute) Hour \<noteq> Inr True"
    by simp
  show ?thesis by (intro conjI s d1 d2 n e)
qed

lemma isMeetingFresh_no_error:
  assumes "flt (SelectLastObserved (ID m)) = None"
  shows "\<exists>b. isMeetingFresh flt db m now rnd = Inr b"
  using assms by (cases "select_last_observed db (ID m)") (auto simp: isMeetingFresh_def failing_def Let_def)

lemma zip_upt_Cons:
  "zip (x # xs) [k ..< k + Suc (length xs)] = (x, k) # zip xs [Suc k ..< Suc k + length xs]"
proof -
  have "[k ..< k + Suc (length xs)] = k # [Suc k ..< Suc k + length xs]"
    by (subst upt_rec) simp
  then show ?thesis by (simp only: zip_Cons_Cons)
qed

lemma scanPage_result:
  assumes "\<forall>i. db_faults env (SelectLastObserved i) = None"
  shows "scanPage env db cutoff c page k need =
     Inr ((\<exists>m \<in> set page. Before (Date (Event m)) cutoff),
          k + length (takeWhile (\<lambda>m. \<not> Before (Date (Event m)) cutoff) page),
          need @ map (\<lambda>(m, i). (m, c))
            (filter (\<lambda>(m, i). isMeetingFresh (db_faults env) db m (fresh_clock env i) (fresh_rand env i)
                               = Inr False)
               (zip (takeWhile (\<lambda>m. \<not> Before (Date (Event m)) cutoff) page)
                    [k ..< k + length (takeWhile (\<lambda>m. \<not> Before (Date (Event m)) cutoff) page)])))"
proof (induction page arbitrary: k need)
  case Nil
  show ?case by simp
next
  case (Cons m ms)
  let ?P = "\<lambda>m. \<not> Before (Date (Event m)) cutoff"
  show ?case
  proof (cases "Before (Date (Event m)) cutoff")
    case True
    then show ?thesis by simp
  next
    case False
    from assms have "db_faults env (SelectLastObserved (ID m)) = None" by blast
    then obtain b where b: "isMeetingFresh (db_faults env) db m (fresh_clock env k) (fresh_rand env k) = Inr b"
      using isMeetingFresh_no_error by blast
    have tw: "takeWhile ?P (m # ms) = m # takeWhile ?P ms"
      using False by simp
    have z: "zip (takeWhile ?P (m # ms)) [k ..< k + length (takeWhile ?P (m # ms))] =
        (m, k) # zip (takeWhile ?P ms) [Suc k ..< Suc k + length (takeWhile ?P ms)]"
      unfolding tw using zip_upt_Cons[of m "takeWhile ?P ms" k] by simp
    show ?thesis
    proof (cases b)
      case True
      with False b show ?thesis
        unfolding z by (simp add: Cons.IH tw)
    next
      case False
      with \<open>\<not> Before (Date (Event m)) cutoff\<close> b show ?thesis
        unfolding z by (simp add: Cons.IH tw)
    qed
  qed
qed



lemma listPages_next:
  assumes "\<forall>i. db_faults env (SelectLastObserved i) = None"
    and "c_List c token = Inr (page, nextToken)"
    and "\<not> (\<exists>m \<in> set page. Before (Date (Event m)) cutoff)" "nextToken \<noteq> []"
  shows "\<exists>k' need'. scanPage env db cutoff c page k need = Inr (False, k', need') \<and>
     listPages (Suc fuel) env db cutoff c token calls k need =
       listPages fuel env db cutoff c nextToken (calls @ [token]) k' need'"
  using assms(2,3,4) by (simp add: scanPage_result[OF assms(1)])




lemma EscribeClient_List_token:
  "token \<noteq> [] \<Longrightarrow> EscribeClient_List eenv token = (Inl ''escribe does not support pagination'', 0)"
  by (simp add: EscribeClient_List_def)

lemma EscribeClient_List_success:
  assumes "EscribeClient_List eenv token = (Inr (ms, nxt), n)"
  shows "nxt = [] \<and> token = [] \<and> n = 1"
  using assms
  by (auto simp: EscribeClient_List_def split: if_splits option.splits http_reply.splits sum.splits)

lemma listPages_escribe:
  "\<exists>r. listPages (Suc fuel) env db cutoff (escribeClient eenv agenda) [] calls k need
        = Some (r, calls @ [[]])"
proof (cases "fst (EscribeClient_List eenv [])")
  case (Inl e)
  then show ?thesis by (simp add: escribeClient_def)
next
  case (Inr p)
  obtain ms nxt where p: "p = (ms, nxt)" by (cases p)
  with Inr have "EscribeClient_List eenv [] = (Inr (ms, nxt), snd (EscribeClient_List eenv []))"
    by (metis prod.collapse)
  then have nxt: "nxt = []" by (simp add: EscribeClient_List_success)
  show ?thesis
  proof (cases "scanPage env db cutoff (escribeClient eenv agenda) ms k need")
    case (Inl e)
    with Inr p show ?thesis by (simp add: escribeClient_def)
  next
    case (Inr res)
    obtain stop k' need' where "res = (stop, k', need')" by (cases res)
    with Inr \<open>fst (EscribeClient_List eenv []) = Inr p\<close> p nxt show ?thesis
      by (simp add: escribeClient_def)
  qed
qed

text \<open>
  Claim C10. \<open>EscribeClient.List\<close> with a token that is not empty returns an error and
  sends no request. A call that succeeds returns the empty next token (and was made with
  the empty token). So the loop over the pages of the eScribe source, which starts from
  the empty token, calls \<open>List\<close> exactly once and returns after that iteration, with any
  fuel of at least one and whatever the reply, the store and the queue.
\<close>

theorem EscribeClient_List_single_page:
  "(token \<noteq> [] \<longrightarrow>
      EscribeClient_List eenv token = (Inl ''escribe does not support pagination'', 0)) \<and>
   (\<forall>ms nxt n. EscribeClient_List eenv token = (Inr (ms, nxt), n) \<longrightarrow> nxt = [] \<and> token = []) \<and>
   (\<exists>r. listPages (Suc fuel) env db cutoff (escribeClient eenv agenda) [] calls k need
          = Some (r, calls @ [[]]))"
  using EscribeClient_List_token[of token eenv] EscribeClient_List_success[of eenv token]
    listPages_escribe[of fuel env db cutoff eenv agenda calls k need]
  by blast

theorem EscribeClient_List_single_page_witness:
  "''p2'' \<noteq> [] \<and>
   EscribeClient_List sample_escribe ''p2'' = (Inl ''escribe does not support pagination'', 0) \<and>
   EscribeClient_List sample_escribe [] =
     (Inr ([\<lparr>ID = ''e1'', Type = ''Regional Council'',
             Event = \<lparr>Date = 63865929600000000000, Note = []\<rparr>,
             URLs = [\<lparr>Name = ''agenda'', URL = ''https://pub-halifax.escribemeetings.com/a''\<rparr>]\<rparr>], []), 1) \<and>
   (\<exists>r. listPages (Suc 0) sample_run sample_store2 (crawl_cutoff sample_store2 (clock0 sample_run))
          (escribeClient sample_escribe (\<lambda>u. Inr sample_agenda)) [] [] 0 [] = Some (r, [] @ [[]]))"
proof -
  note t = EscribeClient_List_single_page[of "''p2''" sample_escribe 0 sample_run sample_store2
      "crawl_cutoff sample_store2 (clock0 sample_run)" "\<lambda>u. Inr sample_agenda" "[]" 0 "[]"]
  have n: "''p2'' \<noteq> []" by simp
  have a: "EscribeClient_List sample_escribe ''p2'' = (Inl ''escribe does not support pagination'', 0)"
    using t[THEN conjunct1] n by blast
  have b: "EscribeClient_List sample_escribe [] =
     (Inr ([\<lparr>ID = ''e1'', Type = ''Regional Council'',
             Event = \<lparr>Date = 63865929600000000000, Note = []\<rparr>,
             URLs = [\<lparr>Name = ''agenda'', URL = ''https://pub-halifax.escribemeetings.com/a''\<rparr>]\<rparr>], []), 1)"
    by code_simp
  show ?thesis
    by (intro conjI n a b t[THEN conjunct2, THEN conjunct2])
qed

lemma fetchURLContent_failures:
  "f_get fenv u = GetFailed e \<Longrightarrow> fetchURLContent sum224 fenv u = Inl (wrap ''fetch'' e)"
  "f_get fenv u = Response resp \<Longrightarrow> r_status resp \<noteq> 200 \<Longrightarrow>
     fetchURLContent sum224 fenv u = Inl ''fetch: bad status''"
  by (simp_all add: fetchURLContent_def)

lemma fetchURLContent_id:
  assumes "fetchURLContent sum224 fenv u = Inr uc"
  shows "uc_contentID uc = sum224 (uc_f uc)"
  using assms
  by (auto simp: fetchURLContent_def split: fetch_reply.splits if_splits option.splits)

lemma saveErr_urls:
  assumes "flt (UpdateURLError u) = None"
  shows "saveErr flt db u now ferr =
     Inr (db\<lparr>external_content_urls := map (\<lambda>r. if u_url r = u
               then r\<lparr>u_fetched := timeValue_Value now, u_error := Some ferr\<rparr> else r)
               (external_content_urls db)\<rparr>)"
  using assms by (simp add: saveErr_def failing_def)

lemma processURL_fetch_failed:
  assumes "fetchURLContent sum224 fenv u = Inl ferr" "flt (UpdateURLError u) = None"
  shows "processURL sum224 flt fenv penv db u now =
     (Inr (db\<lparr>external_content_urls := map (\<lambda>r. if u_url r = u
               then r\<lparr>u_fetched := timeValue_Value now, u_error := Some ferr\<rparr> else r)
               (external_content_urls db)\<rparr>), [])"
  using assms by (simp add: processURL_def saveErr_urls wrapE_def)

lemma timeValue_Value_Some: "now \<noteq> 0 \<Longrightarrow> timeValue_Value now \<noteq> None"
  by (simp add: timeValue_Value_def IsZero_def)

lemma unfetchedURLs_set:
  assumes "unfetchedURLs flt db = Inr us" "u \<in> set us"
  shows "\<exists>r \<in> set (external_content_urls db). u_url r = u \<and> u_fetched r = None"
proof -
  from assms(1) have "us = take 500 (map u_url (filter (\<lambda>r. u_fetched r = None) (external_content_urls db)))"
    by (simp add: unfetchedURLs_def failing_def split: option.splits)
  with assms(2) have "u \<in> set (map u_url (filter (\<lambda>r. u_fetched r = None) (external_content_urls db)))"
    by (auto dest: in_set_takeD)
  then show ?thesis by auto
qed

lemma url_fetched_not_backlog:
  assumes "url_fetched db u" "unfetchedURLs flt db = Inr us"
  shows "u \<notin> set us"
proof
  assume "u \<in> set us"
  with assms(2) obtain r where "r \<in> set (external_content_urls db)" "u_url r = u" "u_fetched r = None"
    using unfetchedURLs_set by blast
  with assms(1) show False by (auto simp: url_fetched_def list_all_iff)
qed

lemma url_fetched_cong:
  "external_content_urls db' = external_content_urls db \<Longrightarrow> url_fetched db' u = url_fetched db u"
  by (simp add: url_fetched_def)

lemma url_fetched_map:
  assumes "url_fetched db u"
    and "\<And>r. u_url (g r) = u_url r"
    and "\<And>r. u_fetched r \<noteq> None \<Longrightarrow> u_fetched (g r) \<noteq> None"
    and "external_content_urls db' = map g (external_content_urls db)"
  shows "url_fetched db' u"
proof -
  from assms(1) obtain r where r: "r \<in> set (external_content_urls db)" "u_url r = u"
    by (auto simp: url_fetched_def list_ex_iff)
  then have "g r \<in> set (external_content_urls db')" "u_url (g r) = u"
    using assms(2,4) by auto
  then have ex: "list_ex (\<lambda>r. u_url r = u) (external_content_urls db')"
    by (auto simp: list_ex_iff)
  have "list_all (\<lambda>r. u_url r \<noteq> u \<or> u_fetched r \<noteq> None) (external_content_urls db')"
    unfolding assms(4) list_all_iff
  proof
    fix x assume "x \<in> set (map g (external_content_urls db))"
    then obtain r0 where r0: "r0 \<in> set (external_content_urls db)" "x = g r0" by auto
    show "u_url x \<noteq> u \<or> u_fetched x \<noteq> None"
    proof (cases "u_url r0 = u")
      case True
      with assms(1) r0 have "u_fetched r0 \<noteq> None" by (auto simp: url_fetched_def list_all_iff)
      then show ?thesis using assms(3) r0 by blast
    next
      case False
      with assms(2) r0 show ?thesis by simp
    qed
  qed
  with ex show ?thesis by (simp add: url_fetched_def)
qed

lemma url_fetched_insert_url:
  assumes "url_fetched db u"
  shows "url_fetched (insert_url db u' a) u"
proof (cases "list_ex (\<lambda>r. u_url r = u') (external_content_urls db)")
  case True
  with assms show ?thesis by (simp add: insert_url_def)
next
  case False
  from assms have "list_ex (\<lambda>r. u_url r = u) (external_content_urls db)" by (simp add: url_fetched_def)
  with False have "u' \<noteq> u" by auto
  with assms False show ?thesis
    by (simp add: insert_url_def url_fetched_def)
qed

lemma url_fetched_register:
  "url_fetched db u \<Longrightarrow> url_fetched (register_urls t mid cid us db) u"
proof (induction us arbitrary: db)
  case Nil then show ?case by simp
next
  case (Cons a us)
  have "url_fetched (insert_link (insert_url db a (timeValue_Value t))
          \<lparr>l_meeting_id = mid, l_agenda_content_id = cid, l_external_content_url = a\<rparr>) u"
    using url_fetched_insert_url[OF Cons.prems, of a "timeValue_Value t"]
    by (subst url_fetched_cong[where db = "insert_url db a (timeValue_Value t)"]) simp_all
  then show ?case by (simp add: Cons.IH)
qed

lemma url_fetched_committed:
  assumes "url_fetched db u"
  shows "url_fetched (committed sum224 db m agenda t) u"
proof -
  have "url_fetched (update_observed
          (insert_version
             (upsert_meeting
                (index_agenda db (sum224 (ContentHTML agenda @ [CHR 0x0A])) (ContentText agenda)
                   (ContentHTML agenda))
                (ID m) (Type m) (Format_date (Date (Event m))) (Note (Event m))
                (Meeting_URL m ''agenda'') (Meeting_URL m ''minutes'') (Meeting_URL m ''video'')
                (sum224 (ContentHTML agenda @ [CHR 0x0A])))
             (version_of sum224 m agenda t))
          (timeValue_Value t) (ID m)) u"
    using assms by (subst url_fetched_cong[where db = db]) simp_all
  then show ?thesis unfolding committed_def by (rule url_fetched_register)
qed

lemma store_fetched_Inr:
  assumes "store_fetched flt db u now uc ex c = Inr db'"
  shows "db' = update_url (if ex then db else insert_content_search (insert_content db c) c)
                 u now uc (c_id c)"
  using assms
  by (cases ex)
     (auto simp: store_fetched_def saveContent_def failing_Inr bindE_Inr wrapE_Inr)

lemma store_fetched_noFaults:
  "store_fetched noFaults db u now uc ex c =
     Inr (update_url (if ex then db else insert_content_search (insert_content db c) c)
            u now uc (c_id c))"
  by (cases ex) (simp_all add: store_fetched_def saveContent_def failing_noFaults bindE_def wrapE_def)

lemma saveErr_Inr:
  assumes "saveErr flt db u now ferr = Inr db'"
  shows "db' = db\<lparr>external_content_urls := map (\<lambda>r. if u_url r = u
               then r\<lparr>u_fetched := timeValue_Value now, u_error := Some ferr\<rparr> else r)
               (external_content_urls db)\<rparr>"
  using assms by (simp add: saveErr_def failing_Inr)

lemma processURL_Inr:
  assumes "processURL sum224 flt fenv penv db u now = (Inr db', tr)"
  shows "(\<exists>ferr. fetchURLContent sum224 fenv u = Inl ferr \<and> tr = [] \<and>
            db' = db\<lparr>external_content_urls := map (\<lambda>r. if u_url r = u
               then r\<lparr>u_fetched := timeValue_Value now, u_error := Some ferr\<rparr> else r)
               (external_content_urls db)\<rparr>) \<or>
         (\<exists>uc c. fetchURLContent sum224 fenv u = Inr uc \<and> c_id c = uc_contentID uc \<and>
            (list_ex (\<lambda>r. ec_id r = uc_contentID uc) (external_content db) \<longrightarrow> tr = []) \<and>
            (tr = [] \<or> tr = snd (processPDF penv (uc_f uc))) \<and>
            db' = update_url
                    (if list_ex (\<lambda>r. ec_id r = uc_contentID uc) (external_content db) then db
                     else insert_content_search (insert_content db c) c)
                    u now uc (uc_contentID uc))"
proof (cases "fetchURLContent sum224 fenv u")
  case (Inl ferr)
  with assms have "saveErr flt db u now ferr = Inr db'" "tr = []"
    by (simp_all add: processURL_def wrapE_Inr)
  with Inl show ?thesis by (auto dest: saveErr_Inr)
next
  case (Inr uc)
  let ?ex = "list_ex (\<lambda>r. ec_id r = uc_contentID uc) (external_content db)"
  show ?thesis
  proof (cases "flt (SelectContent (uc_contentID uc))")
    case (Some e)
    with assms Inr show ?thesis by (simp add: processURL_def contentExists_def)
  next
    case None
    then have ce: "contentExists flt db (uc_contentID uc) = (?ex, None)"
      by (simp add: contentExists_def)
    show ?thesis
    proof (cases "\<not> ?ex \<and> uc_contentType uc = ''application/pdf''")
      case True
      obtain pres trace where p: "processPDF penv (uc_f uc) = (pres, trace)"
        by (cases "processPDF penv (uc_f uc)")
      let ?c = "\<lparr>c_id = uc_contentID uc,
                 c_title = p_title (case pres of Inl perr \<Rightarrow> \<lparr>p_title = [], p_text = []\<rparr> | Inr p \<Rightarrow> p),
                 c_text = p_text (case pres of Inl perr \<Rightarrow> \<lparr>p_title = [], p_text = []\<rparr> | Inr p \<Rightarrow> p)\<rparr>"
      from assms Inr ce True p have sf: "store_fetched flt db u now uc ?ex ?c = Inr db'"
        and tr: "tr = snd (processPDF penv (uc_f uc))"
        by (simp_all add: processURL_def Let_def)
      from sf have "db' = update_url (if ?ex then db else insert_content_search (insert_content db ?c) ?c)
                 u now uc (c_id ?c)"
        by (rule store_fetched_Inr)
      with Inr True tr show ?thesis
        by (intro disjI2 exI[of _ uc] exI[of _ ?c]) simp
    next
      case False
      let ?c = "\<lparr>c_id = uc_contentID uc, c_title = [], c_text = []\<rparr>"
      from assms Inr ce False have sf: "store_fetched flt db u now uc ?ex ?c = Inr db'" and tr: "tr = []"
        by (auto simp: processURL_def Let_def)
      from sf have "db' = update_url (if ?ex then db else insert_content_search (insert_content db ?c) ?c)
                 u now uc (c_id ?c)"
        by (rule store_fetched_Inr)
      with Inr tr show ?thesis
        by (intro disjI2 exI[of _ uc] exI[of _ ?c]) simp
    qed
  qed
qed

lemma insert_content_urls [simp]:
  "external_content_urls (insert_content db c) = external_content_urls db"
  "external_content_urls (insert_content_search db c) = external_content_urls db"
  by (simp_all add: insert_content_def insert_content_search_def)

lemma update_url_urls:
  "external_content_urls (update_url db u now uc cid) =
     map (\<lambda>r. if u_url r = u
          then r\<lparr>u_fetched := timeValue_Value now,
                 u_content_type := Some (uc_contentType uc),
                 u_size := Some (uc_size uc),
                 u_last_modified := timeValue_Value (uc_lastModified uc),
                 u_etag := (if uc_etag uc \<noteq> [] then Some (uc_etag uc) else None),
                 u_error := None,
                 u_external_content_id := Some cid\<rparr>
          else r) (external_content_urls db)"
  by (simp add: update_url_def)

lemma url_fetched_processURL:
  assumes "url_fetched db u" "now \<noteq> 0"
    and "processURL sum224 flt fenv penv db u' now = (Inr db', tr)"
  shows "url_fetched db' u"
proof -
  from timeValue_Value_Some[OF assms(2)] obtain s where s: "timeValue_Value now = Some s" by auto
  from processURL_Inr[OF assms(3)]
  have "(\<exists>ferr. db' = db\<lparr>external_content_urls := map (\<lambda>r. if u_url r = u'
               then r\<lparr>u_fetched := timeValue_Value now, u_error := Some ferr\<rparr> else r)
               (external_content_urls db)\<rparr>) \<or>
        (\<exists>uc c. db' = update_url
                    (if list_ex (\<lambda>r. ec_id r = uc_contentID uc) (external_content db) then db
                     else insert_content_search (insert_content db c) c)
                    u' now uc (uc_contentID uc))"
    by blast
  then show ?thesis
  proof (elim disjE exE)
    fix ferr
    assume "db' = db\<lparr>external_content_urls := map (\<lambda>r. if u_url r = u'
               then r\<lparr>u_fetched := timeValue_Value now, u_error := Some ferr\<rparr> else r)
               (external_content_urls db)\<rparr>"
    then have "external_content_urls db' = map (\<lambda>r. if u_url r = u'
               then r\<lparr>u_fetched := timeValue_Value now, u_error := Some ferr\<rparr> else r)
               (external_content_urls db)" by simp
    then show ?thesis
      by (rule url_fetched_map[OF assms(1), rotated -1]) (simp_all add: s)
  next
    fix uc c
    assume "db' = update_url
                    (if list_ex (\<lambda>r. ec_id r = uc_contentID uc) (external_content db) then db
                     else insert_content_search (insert_content db c) c)
                    u' now uc (uc_contentID uc)"
    then have "external_content_urls db' = map (\<lambda>r. if u_url r = u'
          then r\<lparr>u_fetched := timeValue_Value now,
                 u_content_type := Some (uc_contentType uc),
                 u_size := Some (uc_size uc),
                 u_last_modified := timeValue_Value (uc_lastModified uc),
                 u_etag := (if uc_etag uc \<noteq> [] then Some (uc_etag uc) else None),
                 u_error := None,
                 u_external_content_id := Some (uc_contentID uc)\<rparr>
          else r) (external_content_urls db)"
      by (simp add: update_url_urls)
    then show ?thesis
      by (rule url_fetched_map[OF assms(1), rotated -1]) (simp_all add: s)
  qed
qed

lemma url_fetched_act:
  assumes "url_fetched db u" "real_clock a"
  shows "url_fetched (act sum224 a db) u"
proof (cases a)
  case (Save flt m agenda t)
  show ?thesis
  proof (cases "saveMeeting sum224 flt db m agenda t")
    case (Inl e)
    with Save assms(1) show ?thesis by simp
  next
    case (Inr db')
    then have "db' = committed sum224 db m agenda t" by (simp add: saveMeeting_Inr)
    with Save Inr assms(1) show ?thesis by (simp add: url_fetched_committed)
  qed
next
  case (Fetch flt fenv penv u' now)
  with assms(2) have now: "now \<noteq> 0" by simp
  show ?thesis
  proof (cases "fst (processURL sum224 flt fenv penv db u' now)")
    case (Inl e)
    with Fetch assms(1) show ?thesis by simp
  next
    case (Inr db')
    then have "processURL sum224 flt fenv penv db u' now = (Inr db', snd (processURL sum224 flt fenv penv db u' now))"
      by (metis prod.collapse)
    from url_fetched_processURL[OF assms(1) now this] Fetch Inr show ?thesis by simp
  qed
qed

lemma url_fetched_run:
  "url_fetched db u \<Longrightarrow> list_all real_clock acts \<Longrightarrow> url_fetched (run_actions sum224 acts db) u"
proof (induction acts arbitrary: db)
  case Nil then show ?case by (simp add: run_actions_def)
next
  case (Cons a acts)
  from Cons.prems have "url_fetched (act sum224 a db) u" by (simp add: url_fetched_act)
  with Cons.prems have "url_fetched (run_actions sum224 acts (act sum224 a db)) u"
    by (intro Cons.IH) simp_all
  then show ?case by (simp add: run_actions_def)
qed

lemma processURLs_loop_step:
  assumes "y_wait env i = None"
    and "fst (processURL sum224 (y_faults env) (y_fetch env i) (y_pdf env i) db u (y_clock env i)) = Inr db'"
    and "y_since env i \<le> 30 * Minute"
  shows "processURLs_loop sum224 env (u # urls) i db = processURLs_loop sum224 env urls (Suc i) db'"
  using assms by simp

lemma processURLs_loop_single:
  assumes "y_wait env i = None"
    and "fst (processURL sum224 (y_faults env) (y_fetch env i) (y_pdf env i) db u (y_clock env i)) = Inr db'"
  shows "processURLs_loop sum224 env [u] i db = (None, db')"
  using assms by simp

lemma processURLs_loop_head:
  assumes "y_wait env i = None"
    and "fst (processURL sum224 (y_faults env) (y_fetch env i) (y_pdf env i) db u (y_clock env i)) = Inr db'"
  shows "processURLs_loop sum224 env (u # urls) i db =
           (if y_since env i > 30 * Minute then (None, db')
            else processURLs_loop sum224 env urls (Suc i) db')"
  using assms by simp

text \<open>
  Claim C8. A GET that the client fails and a response whose status is not 200 make
  \<open>fetchURLContent\<close> return an error. When it returns an error for a URL that has a row,
  the update of the row does not fail and the clock is not the zero Time, then
  \<open>processURL\<close> returns no error and runs no tool; every row of the URL then carries the
  fetched timestamp of now and the error string. The loop over the backlog does not
  abort on such a URL, the limiter permitting: on a backlog of that URL alone it returns
  no error and the store with the error recorded; on a longer backlog it goes on from
  that store with the next URL at the next position, unless the budget of 30 minutes is
  spent, when it returns that store and no error. The backlog query does not return the
  URL, and it does not return it after any later saves of meetings and runs of
  \<open>processURL\<close>, whatever they read from outside.
\<close>

theorem processURL_fetch_error_terminal:
  assumes "fetchURLContent sum224 fenv u = Inl ferr"
    and "flt (UpdateURLError u) = None"
    and "now \<noteq> 0"
    and "list_ex (\<lambda>r. u_url r = u) (external_content_urls db)"
  shows "(\<forall>e. f_get fenv' u' = GetFailed e \<longrightarrow> fetchURLContent sum224 fenv' u' = Inl (wrap ''fetch'' e)) \<and>
         (\<forall>resp. f_get fenv' u' = Response resp \<longrightarrow> r_status resp \<noteq> 200 \<longrightarrow>
            fetchURLContent sum224 fenv' u' = Inl ''fetch: bad status'') \<and>
         (\<exists>db'. processURL sum224 flt fenv penv db u now = (Inr db', []) \<and>
            list_ex (\<lambda>r. u_url r = u) (external_content_urls db') \<and>
            (\<forall>r \<in> set (external_content_urls db'). u_url r = u \<longrightarrow>
               u_fetched r = timeValue_Value now \<and> u_fetched r \<noteq> None \<and> u_error r = Some ferr) \<and>
            (\<forall>env urls i. y_wait env i = None \<longrightarrow> y_faults env = flt \<longrightarrow> y_fetch env i = fenv \<longrightarrow>
               y_pdf env i = penv \<longrightarrow> y_clock env i = now \<longrightarrow> y_since env i \<le> 30 * Minute \<longrightarrow>
               processURLs_loop sum224 env (u # urls) i db =
                 processURLs_loop sum224 env urls (Suc i) db') \<and>
            (\<forall>env i. y_wait env i = None \<longrightarrow> y_faults env = flt \<longrightarrow> y_fetch env i = fenv \<longrightarrow>
               y_pdf env i = penv \<longrightarrow> y_clock env i = now \<longrightarrow>
               processURLs_loop sum224 env [u] i db = (None, db')) \<and>
            (\<forall>env urls i. y_wait env i = None \<longrightarrow> y_faults env = flt \<longrightarrow> y_fetch env i = fenv \<longrightarrow>
               y_pdf env i = penv \<longrightarrow> y_clock env i = now \<longrightarrow>
               processURLs_loop sum224 env (u # urls) i db =
                 (if y_since env i > 30 * Minute then (None, db')
                  else processURLs_loop sum224 env urls (Suc i) db')) \<and>
            (\<forall>flt' us. unfetchedURLs flt' db' = Inr us \<longrightarrow> u \<notin> set us) \<and>
            (\<forall>acts flt' us. list_all real_clock acts \<longrightarrow>
               unfetchedURLs flt' (run_actions sum224 acts db') = Inr us \<longrightarrow> u \<notin> set us))"
proof -
  let ?g = "\<lambda>r. if u_url r = u
               then r\<lparr>u_fetched := timeValue_Value now, u_error := Some ferr\<rparr> else r"
  let ?db' = "db\<lparr>external_content_urls := map ?g (external_content_urls db)\<rparr>"
  have p: "processURL sum224 flt fenv penv db u now = (Inr ?db', [])"
    using assms(1,2) by (rule processURL_fetch_failed)
  have urls: "external_content_urls ?db' = map ?g (external_content_urls db)" by simp
  have keys: "map u_url (external_content_urls ?db') = map u_url (external_content_urls db)"
    unfolding urls by (induction "external_content_urls db") auto
  have ex: "list_ex (\<lambda>r. u_url r = u) (external_content_urls ?db')"
    using assms(4) unfolding list_ex_key keys .
  have rows: "\<forall>r \<in> set (external_content_urls ?db'). u_url r = u \<longrightarrow>
               u_fetched r = timeValue_Value now \<and> u_fetched r \<noteq> None \<and> u_error r = Some ferr"
  proof (intro ballI impI)
    fix r assume rin: "r \<in> set (external_content_urls ?db')" and ru: "u_url r = u"
    from rin obtain r0 where r0: "r = ?g r0" unfolding urls by (rule in_set_mapE)
    show "u_fetched r = timeValue_Value now \<and> u_fetched r \<noteq> None \<and> u_error r = Some ferr"
    proof (cases "u_url r0 = u")
      case True
      with r0 timeValue_Value_Some[OF assms(3)] show ?thesis by simp
    next
      case False
      with r0 ru show ?thesis by simp
    qed
  qed
  have fetched: "url_fetched ?db' u"
    unfolding url_fetched_def list_all_iff using ex rows by blast
  have loop: "\<forall>env urls i. y_wait env i = None \<longrightarrow> y_faults env = flt \<longrightarrow> y_fetch env i = fenv \<longrightarrow>
               y_pdf env i = penv \<longrightarrow> y_clock env i = now \<longrightarrow> y_since env i \<le> 30 * Minute \<longrightarrow>
               processURLs_loop sum224 env (u # urls) i db =
                 processURLs_loop sum224 env urls (Suc i) ?db'"
    using p by (auto intro!: processURLs_loop_step)
  have loop1: "\<forall>env i. y_wait env i = None \<longrightarrow> y_faults env = flt \<longrightarrow> y_fetch env i = fenv \<longrightarrow>
               y_pdf env i = penv \<longrightarrow> y_clock env i = now \<longrightarrow>
               processURLs_loop sum224 env [u] i db = (None, ?db')"
    using p by (auto intro!: processURLs_loop_single)
  have loop2: "\<forall>env urls i. y_wait env i = None \<longrightarrow> y_faults env = flt \<longrightarrow> y_fetch env i = fenv \<longrightarrow>
               y_pdf env i = penv \<longrightarrow> y_clock env i = now \<longrightarrow>
               processURLs_loop sum224 env (u # urls) i db =
                 (if y_since env i > 30 * Minute then (None, ?db')
                  else processURLs_loop sum224 env urls (Suc i) ?db')"
  proof (intro allI impI)
    fix env :: urls_env and urls :: "string list" and i :: nat
    assume "y_wait env i = None" "y_faults env = flt" "y_fetch env i = fenv" "y_pdf env i = penv"
      "y_clock env i = now"
    with p show "processURLs_loop sum224 env (u # urls) i db =
                 (if y_since env i > 30 * Minute then (None, ?db')
                  else processURLs_loop sum224 env urls (Suc i) ?db')"
      by (intro processURLs_loop_head) simp_all
  qed
  have q1: "\<forall>flt' us. unfetchedURLs flt' ?db' = Inr us \<longrightarrow> u \<notin> set us"
    using url_fetched_not_backlog[OF fetched] by blast
  have q2: "\<forall>acts flt' us. list_all real_clock acts \<longrightarrow>
               unfetchedURLs flt' (run_actions sum224 acts ?db') = Inr us \<longrightarrow> u \<notin> set us"
    using url_fetched_not_backlog[OF url_fetched_run[OF fetched]] by blast
  have f1: "\<forall>e. f_get fenv' u' = GetFailed e \<longrightarrow> fetchURLContent sum224 fenv' u' = Inl (wrap ''fetch'' e)"
    by (simp add: fetchURLContent_failures)
  have f2: "\<forall>resp. f_get fenv' u' = Response resp \<longrightarrow> r_status resp \<noteq> 200 \<longrightarrow>
            fetchURLContent sum224 fenv' u' = Inl ''fetch: bad status''"
    by (simp add: fetchURLContent_failures)
  from p ex rows loop loop1 loop2 q1 q2 have "\<exists>db'. processURL sum224 flt fenv penv db u now = (Inr db', []) \<and>
            list_ex (\<lambda>r. u_url r = u) (external_content_urls db') \<and>
            (\<forall>r \<in> set (external_content_urls db'). u_url r = u \<longrightarrow>
               u_fetched r = timeValue_Value now \<and> u_fetched r \<noteq> None \<and> u_error r = Some ferr) \<and>
            (\<forall>env urls i. y_wait env i = None \<longrightarrow> y_faults env = flt \<longrightarrow> y_fetch env i = fenv \<longrightarrow>
               y_pdf env i = penv \<longrightarrow> y_clock env i = now \<longrightarrow> y_since env i \<le> 30 * Minute \<longrightarrow>
               processURLs_loop sum224 env (u # urls) i db =
                 processURLs_loop sum224 env urls (Suc i) db') \<and>
            (\<forall>env i. y_wait env i = None \<longrightarrow> y_faults env = flt \<longrightarrow> y_fetch env i = fenv \<longrightarrow>
               y_pdf env i = penv \<longrightarrow> y_clock env i = now \<longrightarrow>
               processURLs_loop sum224 env [u] i db = (None, db')) \<and>
            (\<forall>env urls i. y_wait env i = None \<longrightarrow> y_faults env = flt \<longrightarrow> y_fetch env i = fenv \<longrightarrow>
               y_pdf env i = penv \<longrightarrow> y_clock env i = now \<longrightarrow>
               processURLs_loop sum224 env (u # urls) i db =
                 (if y_since env i > 30 * Minute then (None, db')
                  else processURLs_loop sum224 env urls (Suc i) db')) \<and>
            (\<forall>flt' us. unfetchedURLs flt' db' = Inr us \<longrightarrow> u \<notin> set us) \<and>
            (\<forall>acts flt' us. list_all real_clock acts \<longrightarrow>
               unfetchedURLs flt' (run_actions sum224 acts db') = Inr us \<longrightarrow> u \<notin> set us)"
    by (intro exI[of _ ?db'] conjI)
  with f1 f2 show ?thesis by (intro conjI)
qed

theorem processURL_fetch_error_terminal_witness:
  "f_get sample_fetch_failed ''u'' = GetFailed ''timeout'' \<and>
   fetchURLContent id sample_fetch_failed ''u'' = Inl ''fetch: timeout'' \<and>
   noFaults (UpdateURLError ''u'') = None \<and> sample_t3 \<noteq> 0 \<and>
   list_ex (\<lambda>r. u_url r = ''u'') (external_content_urls sample_store_urls) \<and>
   unfetchedURLs noFaults sample_store_urls = Inr [''u'', ''v''] \<and>
   processURL id noFaults sample_fetch_failed sample_pdf sample_store_urls ''u'' sample_t3
     = (Inr sample_store_u_failed, []) \<and>
   processURLs_loop id sample_urls_env [''u''] 0 sample_store_urls = (None, sample_store_u_failed) \<and>
   processURLs_loop id sample_urls_env [''u'', ''v''] 0 sample_store_urls
     = processURLs_loop id sample_urls_env [''v''] 1 sample_store_u_failed \<and>
   processURLs_loop id sample_urls_env [''u'', ''v''] 0 sample_store_urls
     = (None, sample_store_u_failed_v) \<and>
   processExternalContentURLs id sample_urls_env sample_store_urls = (None, sample_store_u_failed_v) \<and>
   unfetchedURLs noFaults sample_store_u_failed = Inr [''v''] \<and>
   unfetchedURLs noFaults sample_store_u_failed_v = Inr [] \<and>
   list_all real_clock [Save noFaults sample_new_meeting sample_agenda sample_t3,
      Fetch noFaults sample_fetch sample_pdf ''v'' sample_t3] \<and>
   unfetchedURLs noFaults (run_actions id [Save noFaults sample_new_meeting sample_agenda sample_t3,
      Fetch noFaults sample_fetch sample_pdf ''v'' sample_t3] sample_store_u_failed) = Inr [] \<and>
   ''u'' \<notin> set [''v'']"
proof -
  have g: "f_get sample_fetch_failed ''u'' = GetFailed ''timeout''"
    by (simp add: sample_fetch_failed_def)
  have h1: "fetchURLContent id sample_fetch_failed ''u'' = Inl ''fetch: timeout''"
    by code_simp
  have h2: "noFaults (UpdateURLError ''u'') = None" by (simp add: noFaults_def)
  have h3: "sample_t3 \<noteq> 0" by (simp add: sample_t3_def)
  have h4: "list_ex (\<lambda>r. u_url r = ''u'') (external_content_urls sample_store_urls)"
    by code_simp
  have b: "unfetchedURLs noFaults sample_store_urls = Inr [''u'', ''v'']" by code_simp
  have p: "processURL id noFaults sample_fetch_failed sample_pdf sample_store_urls ''u'' sample_t3
     = (Inr sample_store_u_failed, [])"
    by code_simp
  have a: "list_all real_clock [Save noFaults sample_new_meeting sample_agenda sample_t3,
      Fetch noFaults sample_fetch sample_pdf ''v'' sample_t3]"
    by (simp add: sample_t3_def)
  have q1: "unfetchedURLs noFaults sample_store_u_failed = Inr [''v'']" by code_simp
  have q3: "unfetchedURLs noFaults sample_store_u_failed_v = Inr []" by code_simp
  have q2: "unfetchedURLs noFaults (run_actions id [Save noFaults sample_new_meeting sample_agenda sample_t3,
      Fetch noFaults sample_fetch sample_pdf ''v'' sample_t3] sample_store_u_failed) = Inr []"
    by code_simp
  have e1: "y_wait sample_urls_env 0 = None" and e2: "y_faults sample_urls_env = noFaults"
    and e3: "y_fetch sample_urls_env 0 = sample_fetch_failed" and e4: "y_pdf sample_urls_env 0 = sample_pdf"
    and e5: "y_clock sample_urls_env 0 = sample_t3" and e6: "y_since sample_urls_env 0 \<le> 30 * Minute"
    by (simp_all add: sample_urls_env_def duration_values)
  from processURL_fetch_error_terminal[where flt = noFaults and u = "''u''" and penv = sample_pdf,
      OF h1 h2 h3 h4, THEN conjunct2, THEN conjunct2]
  obtain db' where d: "processURL id noFaults sample_fetch_failed sample_pdf sample_store_urls ''u'' sample_t3 = (Inr db', [])"
    and l0: "\<forall>env urls i. y_wait env i = None \<longrightarrow> y_faults env = noFaults \<longrightarrow>
               y_fetch env i = sample_fetch_failed \<longrightarrow> y_pdf env i = sample_pdf \<longrightarrow>
               y_clock env i = sample_t3 \<longrightarrow> y_since env i \<le> 30 * Minute \<longrightarrow>
               processURLs_loop id env (''u'' # urls) i sample_store_urls =
                 processURLs_loop id env urls (Suc i) db'"
    and l1: "\<forall>env i. y_wait env i = None \<longrightarrow> y_faults env = noFaults \<longrightarrow>
               y_fetch env i = sample_fetch_failed \<longrightarrow> y_pdf env i = sample_pdf \<longrightarrow>
               y_clock env i = sample_t3 \<longrightarrow>
               processURLs_loop id env [''u''] i sample_store_urls = (None, db')"
    and n: "\<forall>flt' us. unfetchedURLs flt' db' = Inr us \<longrightarrow> ''u'' \<notin> set us"
    by blast
  from d p have db': "db' = sample_store_u_failed" by simp
  from l1[rule_format, OF e1 e2 e3 e4 e5]
  have s1: "processURLs_loop id sample_urls_env [''u''] 0 sample_store_urls = (None, sample_store_u_failed)"
    by (simp only: db')
  from l0[rule_format, OF e1 e2 e3 e4 e5 e6, of "[''v'']"]
  have s2: "processURLs_loop id sample_urls_env [''u'', ''v''] 0 sample_store_urls
     = processURLs_loop id sample_urls_env [''v''] 1 sample_store_u_failed"
    by (simp only: db' One_nat_def)
  have "processURLs_loop id sample_urls_env [''v''] 1 sample_store_u_failed = (None, sample_store_u_failed_v)"
    by code_simp
  with s2 have s3: "processURLs_loop id sample_urls_env [''u'', ''v''] 0 sample_store_urls
     = (None, sample_store_u_failed_v)"
    by simp
  have s4: "processExternalContentURLs id sample_urls_env sample_store_urls = (None, sample_store_u_failed_v)"
    by code_simp
  from n q1 have e: "''u'' \<notin> set [''v'']" unfolding db' by blast
  show ?thesis by (intro conjI g h1 h2 h3 h4 b p s1 s2 s3 s4 q1 q3 a q2 e)
qed

lemma run_tesseract_trace:
  "\<exists>n. snd (run_tesseract env f ps dir tr) = tr @ map Tesseract (take n ps)"
proof (induction ps arbitrary: dir tr)
  case Nil
  show ?case by simp
next
  case (Cons p ps)
  show ?case
  proof (cases "x_tesseract env f p")
    case (Inl e)
    then have "snd (run_tesseract env f (p # ps) dir tr) = tr @ map Tesseract (take 1 (p # ps))"
      by simp
    then show ?thesis by blast
  next
    case (Inr tx)
    from Cons.IH
    obtain n where "snd (run_tesseract env f ps (write_file dir (p @ ''.txt'') tx) (tr @ [Tesseract p]))
        = (tr @ [Tesseract p]) @ map Tesseract (take n ps)" by blast
    with Inr have "snd (run_tesseract env f (p # ps) dir tr) = tr @ map Tesseract (take (Suc n) (p # ps))"
      by simp
    then show ?thesis by blast
  qed
qed

lemma processPDF_trace:
  "\<exists>rest. snd (processPDF env f) = Pdfinfo # rest \<and> Pdfinfo \<notin> set rest"
proof (cases "x_pdfinfo env f")
  case (Inl e)
  then show ?thesis by (simp add: processPDF_def)
next
  case info: (Inr info)
  show ?thesis
  proof (cases "x_pdftotext env f")
    case (Inl e)
    with info show ?thesis by (simp add: processPDF_def)
  next
    case out: (Inr out)
    show ?thesis
    proof (cases "TrimSpace out \<noteq> []")
      case True
      with info out show ?thesis by (simp add: processPDF_def)
    next
      case empty: False
      show ?thesis
      proof (cases "x_mkdir_temp env")
        case (Some e)
        with info out empty show ?thesis by (simp add: processPDF_def)
      next
        case None
        show ?thesis
        proof (cases "x_pdftoppm env f")
          case (Inl e)
          with info out empty None show ?thesis by (simp add: processPDF_def)
        next
          case (Inr dir)
          obtain res tr where rt: "run_tesseract env f (Glob dir ''.png'') dir [Pdfinfo, Pdftotext, Pdftoppm] = (res, tr)"
            by (cases "run_tesseract env f (Glob dir ''.png'') dir [Pdfinfo, Pdftotext, Pdftoppm]")
          from run_tesseract_trace[of env f "Glob dir ''.png''" dir "[Pdfinfo, Pdftotext, Pdftoppm]"] rt
          obtain n where tr: "tr = [Pdfinfo, Pdftotext, Pdftoppm] @ map Tesseract (take n (Glob dir ''.png''))"
            by auto
          have "snd (processPDF env f) = tr"
            using info out empty None Inr rt
            by (cases res) (auto simp: processPDF_def split: sum.splits)
          with tr show ?thesis by auto
        qed
      qed
    qed
  qed
qed

lemma content_ok_insert:
  assumes "content_ok db"
  shows "content_ok (insert_content_search (insert_content db c) c)"
proof (cases "list_ex (\<lambda>r. ec_id r = c_id c) (external_content db)")
  case True
  with assms show ?thesis
    by (simp add: content_ok_def insert_content_def insert_content_search_def)
next
  case False
  then have "c_id c \<notin> set (map ec_id (external_content db))" by (simp add: list_ex_key)
  with assms False show ?thesis
    by (simp add: content_ok_def insert_content_def insert_content_search_def)
qed

lemma insert_content_has:
  "list_ex (\<lambda>r. ec_id r = c_id c) (external_content (insert_content_search (insert_content db c) c))"
  by (simp add: insert_content_def insert_content_search_def list_ex_iff)

lemma update_url_content [simp]:
  "external_content (update_url db u now uc cid) = external_content db"
  by (simp add: update_url_def)

lemma update_url_keys:
  "map u_url (external_content_urls (update_url db u now uc cid)) = map u_url (external_content_urls db)"
  unfolding update_url_urls by (induction "external_content_urls db") auto

lemma update_url_row:
  assumes "r \<in> set (external_content_urls (update_url db u now uc cid))"
  shows "(u_url r = u \<longrightarrow> u_external_content_id r = Some cid \<and> u_error r = None \<and>
            u_fetched r = timeValue_Value now \<and> u_size r = Some (uc_size uc)) \<and>
         (u_url r \<noteq> u \<longrightarrow> r \<in> set (external_content_urls db))"
proof -
  from assms obtain r0 where r0: "r0 \<in> set (external_content_urls db)"
    and r: "r = (if u_url r0 = u
          then r0\<lparr>u_fetched := timeValue_Value now,
                 u_content_type := Some (uc_contentType uc),
                 u_size := Some (uc_size uc),
                 u_last_modified := timeValue_Value (uc_lastModified uc),
                 u_etag := (if uc_etag uc \<noteq> [] then Some (uc_etag uc) else None),
                 u_error := None,
                 u_external_content_id := Some cid\<rparr>
          else r0)"
    unfolding update_url_urls by (rule in_set_mapE)
  show ?thesis
  proof (cases "u_url r0 = u")
    case True with r show ?thesis by simp
  next
    case False with r r0 show ?thesis by simp
  qed
qed

lemma processURL_fetched_result:
  assumes "fetchURLContent sum224 fenv u = Inr uc"
    and "processURL sum224 flt fenv penv db u now = (Inr db', tr)"
  shows "\<exists>c. c_id c = uc_contentID uc \<and>
            (list_ex (\<lambda>r. ec_id r = uc_contentID uc) (external_content db) \<longrightarrow> tr = []) \<and>
            (tr = [] \<or> tr = snd (processPDF penv (uc_f uc))) \<and>
            db' = update_url
                    (if list_ex (\<lambda>r. ec_id r = uc_contentID uc) (external_content db) then db
                     else insert_content_search (insert_content db c) c)
                    u now uc (uc_contentID uc)"
  using processURL_Inr[OF assms(2)] assms(1) by auto

text \<open>
  Claim C6. Let the store satisfy the primary key of \<open>external_content\<close>, let two
  distinct URLs have rows, and let their fetches succeed with byte-identical bodies. The
  content identifier of each is the sum of its bytes, so the two are equal. When
  \<open>processURL\<close> succeeds on the first URL and then on the second, the store holds exactly
  one \<open>external_content\<close> row with that identifier, the second run starts no tool and
  the two runs together start \<open>pdfinfo\<close>, the first tool of an extraction, at most once,
  and every row of either URL references that identifier in \<open>external_content_id\<close>.
\<close>

theorem processURL_cross_url_dedup:
  assumes "content_ok db"
    and "u1 \<noteq> u2"
    and "list_ex (\<lambda>r. u_url r = u1) (external_content_urls db)"
    and "list_ex (\<lambda>r. u_url r = u2) (external_content_urls db)"
    and "fetchURLContent sum224 fenv1 u1 = Inr uc1"
    and "fetchURLContent sum224 fenv2 u2 = Inr uc2"
    and "uc_f uc1 = uc_f uc2"
    and "processURL sum224 flt1 fenv1 penv1 db u1 now1 = (Inr db1, tr1)"
    and "processURL sum224 flt2 fenv2 penv2 db1 u2 now2 = (Inr db2, tr2)"
  shows "uc_contentID uc1 = sum224 (uc_f uc1) \<and> uc_contentID uc2 = uc_contentID uc1 \<and>
         length (filter (\<lambda>r. ec_id r = uc_contentID uc1) (external_content db2)) = 1 \<and>
         tr2 = [] \<and> length (filter (\<lambda>t. t = Pdfinfo) (tr1 @ tr2)) \<le> 1 \<and>
         list_ex (\<lambda>r. u_url r = u1) (external_content_urls db2) \<and>
         list_ex (\<lambda>r. u_url r = u2) (external_content_urls db2) \<and>
         (\<forall>r \<in> set (external_content_urls db2). u_url r = u1 \<or> u_url r = u2 \<longrightarrow>
            u_external_content_id r = Some (uc_contentID uc1))"
proof -
  let ?cid = "uc_contentID uc1"
  have id1: "?cid = sum224 (uc_f uc1)" using assms(5) by (rule fetchURLContent_id)
  have id2: "uc_contentID uc2 = ?cid"
    using fetchURLContent_id[OF assms(6)] id1 assms(7) by simp
  from processURL_fetched_result[OF assms(5) assms(8)]
  obtain c1 where c1: "c_id c1 = ?cid"
    and t1: "tr1 = [] \<or> tr1 = snd (processPDF penv1 (uc_f uc1))"
    and db1: "db1 = update_url
                    (if list_ex (\<lambda>r. ec_id r = ?cid) (external_content db) then db
                     else insert_content_search (insert_content db c1) c1)
                    u1 now1 uc1 ?cid"
    by blast
  let ?X = "if list_ex (\<lambda>r. ec_id r = ?cid) (external_content db) then db
            else insert_content_search (insert_content db c1) c1"
  have okX: "content_ok ?X"
    using assms(1) by (simp add: content_ok_insert)
  have hasX: "list_ex (\<lambda>r. ec_id r = ?cid) (external_content ?X)"
    using insert_content_has[of c1 db] c1 by simp
  have ok1: "content_ok db1" using okX by (simp add: db1 content_ok_def)
  have has1: "list_ex (\<lambda>r. ec_id r = uc_contentID uc2) (external_content db1)"
    using hasX by (simp add: db1 id2)
  from processURL_fetched_result[OF assms(6) assms(9)] has1
  obtain c2 where t2: "tr2 = []"
    and db2: "db2 = update_url db1 u2 now2 uc2 (uc_contentID uc2)"
    by auto
  have content2: "external_content db2 = external_content db1" by (simp add: db2)
  have count: "length (filter (\<lambda>r. ec_id r = ?cid) (external_content db2)) = 1"
    unfolding content2
    using ok1 has1 by (intro count_key) (simp_all add: content_ok_def id2)
  have pdfinfo: "length (filter (\<lambda>t. t = Pdfinfo) (tr1 @ tr2)) \<le> 1"
  proof -
    from processPDF_trace[of penv1 "uc_f uc1"] obtain rest
      where "snd (processPDF penv1 (uc_f uc1)) = Pdfinfo # rest" "Pdfinfo \<notin> set rest" by blast
    then have "length (filter (\<lambda>t. t = Pdfinfo) (snd (processPDF penv1 (uc_f uc1)))) = 1"
      by (auto simp: filter_empty_conv)
    with t1 t2 show ?thesis by auto
  qed
  have keysX: "map u_url (external_content_urls ?X) = map u_url (external_content_urls db)"
    by simp
  have keys1: "map u_url (external_content_urls db1) = map u_url (external_content_urls db)"
    unfolding db1 update_url_keys by (rule keysX)
  have keys2: "map u_url (external_content_urls db2) = map u_url (external_content_urls db)"
    unfolding db2 update_url_keys by (rule keys1)
  have ex1: "list_ex (\<lambda>r. u_url r = u1) (external_content_urls db2)"
    using assms(3) unfolding list_ex_key keys2 .
  have ex2: "list_ex (\<lambda>r. u_url r = u2) (external_content_urls db2)"
    using assms(4) unfolding list_ex_key keys2 .
  have rows: "\<forall>r \<in> set (external_content_urls db2). u_url r = u1 \<or> u_url r = u2 \<longrightarrow>
            u_external_content_id r = Some ?cid"
  proof (intro ballI impI)
    fix r assume r: "r \<in> set (external_content_urls db2)" and u: "u_url r = u1 \<or> u_url r = u2"
    note row2 = update_url_row[OF r[unfolded db2]]
    show "u_external_content_id r = Some ?cid"
    proof (cases "u_url r = u2")
      case True
      with row2 id2 show ?thesis by simp
    next
      case False
      with u have u1: "u_url r = u1" by simp
      from False row2 have "r \<in> set (external_content_urls db1)" by simp
      from update_url_row[OF this[unfolded db1]] u1 show ?thesis by simp
    qed
  qed
  from id1 id2 count t2 pdfinfo ex1 ex2 rows show ?thesis by (intro conjI)
qed

theorem processURL_cross_url_dedup_witness:
  "content_ok sample_store_urls \<and> ''v'' \<noteq> ''u'' \<and>
   list_ex (\<lambda>r. u_url r = ''v'') (external_content_urls sample_store_urls) \<and>
   list_ex (\<lambda>r. u_url r = ''u'') (external_content_urls sample_store_urls) \<and>
   map_sum id uc_f (fetchURLContent id sample_fetch ''v'') = Inr ''x'' \<and>
   map_sum id uc_f (fetchURLContent id sample_fetch ''u'') = Inr ''x'' \<and>
   processURL id noFaults sample_fetch sample_pdf sample_store_urls ''v'' sample_t3
     = (Inr sample_store_v,
        [Pdfinfo, Pdftotext, Pdftoppm, Tesseract ''page-1.png'', Tesseract ''page-2.png'']) \<and>
   processURL id noFaults sample_fetch sample_pdf sample_store_v ''u'' sample_t3
     = (Inr sample_store_uv, []) \<and>
   length (filter (\<lambda>r. ec_id r = ''x'') (external_content sample_store_uv)) = 1 \<and>
   map u_external_content_id (external_content_urls sample_store_uv) = [Some ''x'', Some ''x'']"
proof -
  obtain uc1 where f1: "fetchURLContent id sample_fetch ''v'' = Inr uc1" and b1: "uc_f uc1 = ''x''"
    and i1: "uc_contentID uc1 = ''x''"
    by (simp add: fetchURLContent_def sample_fetch_def)
  obtain uc2 where f2: "fetchURLContent id sample_fetch ''u'' = Inr uc2" and b2: "uc_f uc2 = ''x''"
    by (simp add: fetchURLContent_def sample_fetch_def)
  have h1: "content_ok sample_store_urls" by code_simp
  have h2: "''v'' \<noteq> ''u''" by simp
  have h3: "list_ex (\<lambda>r. u_url r = ''v'') (external_content_urls sample_store_urls)" by code_simp
  have h4: "list_ex (\<lambda>r. u_url r = ''u'') (external_content_urls sample_store_urls)" by code_simp
  have h7: "uc_f uc1 = uc_f uc2" by (simp add: b1 b2)
  have p1: "processURL id noFaults sample_fetch sample_pdf sample_store_urls ''v'' sample_t3
     = (Inr sample_store_v,
        [Pdfinfo, Pdftotext, Pdftoppm, Tesseract ''page-1.png'', Tesseract ''page-2.png''])"
    by code_simp
  have p2: "processURL id noFaults sample_fetch sample_pdf sample_store_v ''u'' sample_t3
     = (Inr sample_store_uv, [])"
    by code_simp
  note t = processURL_cross_url_dedup[OF h1 h2 h3 h4 f1 f2 h7 p1 p2]
  have c: "length (filter (\<lambda>r. ec_id r = ''x'') (external_content sample_store_uv)) = 1"
    using t[THEN conjunct2, THEN conjunct2, THEN conjunct1] by (simp only: i1)
  have m1: "map_sum id uc_f (fetchURLContent id sample_fetch ''v'') = Inr ''x''"
    by (simp add: f1 b1)
  have m2: "map_sum id uc_f (fetchURLContent id sample_fetch ''u'') = Inr ''x''"
    by (simp add: f2 b2)
  have e: "map u_external_content_id (external_content_urls sample_store_uv) = [Some ''x'', Some ''x'']"
    by (simp add: sample_store_uv_def)
  show ?thesis by (intro conjI h1 h2 h3 h4 m1 m2 p1 p2 c e)
qed

text \<open>
  Claim C2, on the failing input. The URL of the sample store is fetched with status
  200 and content type \<open>application/pdf\<close>, no content row has the identifier of its
  body, and \<open>processPDF\<close> fails because \<open>pdfinfo\<close> does. \<open>processURL\<close> then returns no error,
  stores a content row with an empty title and an empty text, and leaves the row of the
  URL fetched with no error string and with a reference to that content row.
\<close>

theorem processURL_pdf_error_not_recorded:
  "unfetchedURLs noFaults sample_store2 = Inr [''u''] \<and>
   external_content sample_store2 = [] \<and>
   map_sum id uc_contentType (fetchURLContent id sample_fetch ''u'') = Inr ''application/pdf'' \<and>
   processPDF sample_pdf_broken ''x'' = (Inl ''pdfinfo: exit status 1'', [Pdfinfo]) \<and>
   processURL id noFaults sample_fetch sample_pdf_broken sample_store2 ''u'' sample_t3
     = (Inr sample_store_broken, [Pdfinfo]) \<and>
   external_content sample_store_broken
     = [\<lparr>ec_rowid = 1, ec_id = ''x'', ec_title = [], ec_text = []\<rparr>] \<and>
   map u_error (external_content_urls sample_store_broken) = [None] \<and>
   map u_external_content_id (external_content_urls sample_store_broken) = [Some ''x'']"
proof -
  have a: "unfetchedURLs noFaults sample_store2 = Inr [''u'']" by code_simp
  have b: "external_content sample_store2 = []" by code_simp
  have c: "map_sum id uc_contentType (fetchURLContent id sample_fetch ''u'') = Inr ''application/pdf''"
    by code_simp
  have d: "processPDF sample_pdf_broken ''x'' = (Inl ''pdfinfo: exit status 1'', [Pdfinfo])"
    by code_simp
  have e: "processURL id noFaults sample_fetch sample_pdf_broken sample_store2 ''u'' sample_t3
     = (Inr sample_store_broken, [Pdfinfo])"
    by code_simp
  have f: "external_content sample_store_broken
     = [\<lparr>ec_rowid = 1, ec_id = ''x'', ec_title = [], ec_text = []\<rparr>]"
    by (simp add: sample_store_broken_def)
  have g: "map u_error (external_content_urls sample_store_broken) = [None]"
    by (simp add: sample_store_broken_def)
  have h: "map u_external_content_id (external_content_urls sample_store_broken) = [Some ''x'']"
    by (simp add: sample_store_broken_def)
  show ?thesis by (intro conjI a b c d e f g h)
qed


























end
